theory Spec2Isabelle
  imports Main
begin

section \<open>Strings\<close>

text \<open>
  A string is a list of characters; a character stands for one code unit of the
  JavaScript string, in the range below 256. The operations below are the methods
  of \<^verbatim>\<open>String.prototype\<close> that the sources call, with their results on every
  input written out (\<^verbatim>\<open>indexOf\<close> answers \<open>-1\<close>, \<^verbatim>\<open>substring\<close> clamps).
\<close>

abbreviation nl :: char where "nl \<equiv> CHR 0x0A"

text \<open>White space as \<^verbatim>\<open>\s\<close> and \<^verbatim>\<open>trim\<close> read it: TAB, LF, VT, FF, CR, SP, NBSP.\<close>

definition is_space :: "char \<Rightarrow> bool" where
  "is_space c \<longleftrightarrow> c \<in> set [CHR 0x09, CHR 0x0A, CHR 0x0B, CHR 0x0C, CHR 0x0D, CHR 0x20, CHR 0xA0]"

definition is_upper :: "char \<Rightarrow> bool" where
  "is_upper c \<longleftrightarrow> (let n = (of_char c :: nat) in 65 \<le> n \<and> n \<le> 90)"

definition is_lower :: "char \<Rightarrow> bool" where
  "is_lower c \<longleftrightarrow> (let n = (of_char c :: nat) in 97 \<le> n \<and> n \<le> 122)"

definition is_digit :: "char \<Rightarrow> bool" where
  "is_digit c \<longleftrightarrow> (let n = (of_char c :: nat) in 48 \<le> n \<and> n \<le> 57)"

text \<open>The class \<^verbatim>\<open>\w\<close>.\<close>

definition is_word :: "char \<Rightarrow> bool" where
  "is_word c \<longleftrightarrow> is_upper c \<or> is_lower c \<or> is_digit c \<or> c = CHR ''_''"

definition trim :: "string \<Rightarrow> string" where
  "trim s = rev (dropWhile is_space (rev (dropWhile is_space s)))"

definition trimRight :: "string \<Rightarrow> string" where
  "trimRight s = rev (dropWhile is_space (rev s))"

text \<open>\<^verbatim>\<open>s.match(/^\s*/)?.[0] || ""\<close>: the leading white space.\<close>

definition leadingWhitespace :: "string \<Rightarrow> string" where
  "leadingWhitespace s = takeWhile is_space s"

definition startsWith :: "string \<Rightarrow> string \<Rightarrow> bool" where
  "startsWith s p \<longleftrightarrow> take (length p) s = p"

definition endsWith :: "string \<Rightarrow> string \<Rightarrow> bool" where
  "endsWith s p \<longleftrightarrow> length p \<le> length s \<and> drop (length s - length p) s = p"

fun includesStr :: "string \<Rightarrow> string \<Rightarrow> bool" where
  "includesStr [] sub = (sub = [])"
| "includesStr (c # cs) sub = (startsWith (c # cs) sub \<or> includesStr cs sub)"

fun indexOf :: "string \<Rightarrow> string \<Rightarrow> int" where
  "indexOf [] sub = (if sub = [] then 0 else - 1)"
| "indexOf (c # cs) sub =
     (if startsWith (c # cs) sub then 0
      else (let r = indexOf cs sub in if r < 0 then - 1 else r + 1))"

text \<open>\<^verbatim>\<open>s.split(d)\<close> at a one-character separator: never the empty list.\<close>

fun split :: "char \<Rightarrow> string \<Rightarrow> string list" where
  "split d [] = [[]]"
| "split d (c # cs) =
     (if c = d then [] # split d cs
      else (case split d cs of [] \<Rightarrow> [[c]] | l # ls \<Rightarrow> (c # l) # ls))"

fun join :: "string \<Rightarrow> string list \<Rightarrow> string" where
  "join sep [] = []"
| "join sep [x] = x"
| "join sep (x # y # ys) = x @ sep @ join sep (y # ys)"

text \<open>\<^verbatim>\<open>s.split(sep)[0]\<close> for a non-empty separator: the text before its first occurrence.\<close>

fun firstPart :: "string \<Rightarrow> string \<Rightarrow> string" where
  "firstPart sep [] = []"
| "firstPart sep (c # cs) = (if startsWith (c # cs) sep then [] else c # firstPart sep cs)"

text \<open>\<^verbatim>\<open>xs.slice(a, b + 1)\<close>, the elements at the indices \<open>a, ..., b\<close>.\<close>

definition slice :: "'a list \<Rightarrow> nat \<Rightarrow> nat \<Rightarrow> 'a list" where
  "slice xs a b = take (b + 1 - a) (drop a xs)"


section \<open>Regular expressions\<close>

text \<open>
  The fragment of JavaScript's regular expressions that the sources use: character
  classes, a starred class, sequence, alternative, option, the anchors \<^verbatim>\<open>^\<close> and
  \<^verbatim>\<open>$\<close> (no \<^verbatim>\<open>m\<close> flag: start and end of the input) and the word boundary
  \<^verbatim>\<open>\b\<close>. Every quantifier of the sources stands on a single class or on a group
  under \<^verbatim>\<open>?\<close>. \<open>ends s r i\<close> lists the positions where a match of \<open>r\<close> that starts at
  \<open>i\<close> can end, in the order in which the backtracking matcher tries them (greedy
  quantifiers, alternatives from the left).
\<close>

datatype rx =
    Cls "char \<Rightarrow> bool"
  | Many "char \<Rightarrow> bool"
  | Seq rx rx
  | Alt rx rx
  | Opt rx
  | Bol
  | Eol
  | Wb
  | Eps

definition wordAt :: "string \<Rightarrow> nat \<Rightarrow> bool" where
  "wordAt s i \<longleftrightarrow> i < length s \<and> is_word (s ! i)"

fun ends :: "string \<Rightarrow> rx \<Rightarrow> nat \<Rightarrow> nat list" where
  "ends s (Cls P) i = (if i < length s \<and> P (s ! i) then [i + 1] else [])"
| "ends s (Many P) i = rev [i ..< i + length (takeWhile P (drop i s)) + 1]"
| "ends s (Seq a b) i = concat (map (\<lambda>j. ends s b j) (ends s a i))"
| "ends s (Alt a b) i = ends s a i @ ends s b i"
| "ends s (Opt a) i = ends s a i @ [i]"
| "ends s Bol i = (if i = 0 then [i] else [])"
| "ends s Eol i = (if i = length s then [i] else [])"
| "ends s Wb i = (if (0 < i \<and> wordAt s (i - 1)) \<noteq> wordAt s i then [i] else [])"
| "ends s Eps i = [i]"

text \<open>\<^verbatim>\<open>Boolean(s.match(r))\<close>: some match starts somewhere.\<close>

definition matches :: "string \<Rightarrow> rx \<Rightarrow> bool" where
  "matches s r \<longleftrightarrow> list_ex (\<lambda>i. ends s r i \<noteq> []) [0 ..< length s + 1]"

fun lit :: "string \<Rightarrow> rx" where
  "lit [] = Eps"
| "lit (c # cs) = Seq (Cls (\<lambda>x. x = c)) (lit cs)"

fun seqs :: "rx list \<Rightarrow> rx" where
  "seqs [] = Eps"
| "seqs [r] = r"
| "seqs (r # rs) = Seq r (seqs rs)"

fun alts :: "string list \<Rightarrow> rx" where
  "alts [] = Cls (\<lambda>x. False)"
| "alts [w] = lit w"
| "alts (w # ws) = Alt (lit w) (alts ws)"

definition many1 :: "(char \<Rightarrow> bool) \<Rightarrow> rx" where
  "many1 P = Seq (Cls P) (Many P)"

definition chr :: "char \<Rightarrow> rx" where
  "chr c = Cls (\<lambda>x. x = c)"

definition notchr :: "char \<Rightarrow> char \<Rightarrow> bool" where
  "notchr c = (\<lambda>x. x \<noteq> c)"

text \<open>The dot: any character but a line terminator.\<close>

definition dot :: "char \<Rightarrow> bool" where
  "dot c \<longleftrightarrow> c \<noteq> CHR 0x0A \<and> c \<noteq> CHR 0x0D"


section \<open>The editor's document (external interface)\<close>

text \<open>
  A document is the list of its lines, without line terminators; the editor keeps at
  least one line and its end-of-line sequence is taken to be LF. \<^verbatim>\<open>lineAt\<close> with a
  line number raises outside \<open>[0, lineCount)\<close>; \<^verbatim>\<open>getText(range)\<close> first adjusts
  the range to the document, as the editor's interface documents both.
\<close>

type_synonym document = "string list"

record position =
  line :: nat
  character :: nat

datatype error = IllegalLine | TypeError

definition wf_document :: "document \<Rightarrow> bool" where
  "wf_document doc \<longleftrightarrow> doc \<noteq> [] \<and> (\<forall>l \<in> set doc. nl \<notin> set l)"

definition lineAt :: "document \<Rightarrow> nat \<Rightarrow> error + string" where
  "lineAt doc n = (if n < length doc then Inr (doc ! n) else Inl IllegalLine)"

definition validatePosition :: "document \<Rightarrow> position \<Rightarrow> position" where
  "validatePosition doc p =
     (if line p \<ge> length doc
      then \<lparr>line = length doc - 1, character = length (last doc)\<rparr>
      else \<lparr>line = line p, character = min (character p) (length (doc ! line p))\<rparr>)"

definition getText :: "document \<Rightarrow> string" where
  "getText doc = join [nl] doc"

definition getTextRange :: "document \<Rightarrow> position \<Rightarrow> position \<Rightarrow> string" where
  "getTextRange doc a b =
     (let s = validatePosition doc a; e = validatePosition doc b in
      if line s = line e
      then take (character e - character s) (drop (character s) (doc ! line s))
      else join [nl] ([drop (character s) (doc ! line s)]
             @ take (line e - line s - 1) (drop (line s + 1) doc)
             @ [take (character e) (doc ! line e)]))"


section \<open>Language heuristics (helpers/language-features.ts)\<close>

definition slashLanguages :: "string list" where
  "slashLanguages = [''javascript'', ''typescript'', ''java'', ''c'', ''cpp'', ''csharp'',
     ''go'', ''rust'', ''swift'', ''php'']"

definition hashLanguages :: "string list" where
  "hashLanguages = [''python'', ''ruby'', ''shell'', ''bash'', ''yaml'']"

definition markupLanguages :: "string list" where
  "markupLanguages = [''html'', ''xml'']"

definition isPositionInComment :: "string \<Rightarrow> document \<Rightarrow> position \<Rightarrow> error + bool" where
  "isPositionInComment languageId doc pos =
     (case lineAt doc (line pos) of
        Inl e \<Rightarrow> Inl e
      | Inr ln \<Rightarrow>
          if languageId \<in> set slashLanguages then
            (let singleCommentPos = indexOf ln ''//'' in
             Inr (singleCommentPos \<ge> 0 \<and> int (character pos) > singleCommentPos))
          else if languageId \<in> set hashLanguages then
            (let hashCommentPos = indexOf ln ''#'' in
             Inr (hashCommentPos \<ge> 0 \<and> int (character pos) > hashCommentPos))
          else if languageId \<in> set markupLanguages then
            (let htmlCommentStart = indexOf ln ''<!--'';
                 htmlCommentEnd = indexOf ln ''-->'' in
             Inr (htmlCommentStart \<ge> 0 \<and> int (character pos) > htmlCommentStart
                  \<and> (htmlCommentEnd < 0 \<or> int (character pos) < htmlCommentEnd)))
          else Inr False)"

definition quoteLanguages :: "string list" where
  "quoteLanguages = [''javascript'', ''typescript'', ''java'', ''c'', ''cpp'', ''csharp'',
     ''go'', ''rust'', ''swift'', ''php'', ''python'', ''ruby'']"

definition isPositionInString :: "string \<Rightarrow> document \<Rightarrow> position \<Rightarrow> error + bool" where
  "isPositionInString languageId doc pos =
     (case lineAt doc (line pos) of
        Inl e \<Rightarrow> Inl e
      | Inr ln \<Rightarrow>
          (let textBeforeCursor = take (character pos) ln in
           if languageId \<in> set quoteLanguages then
             (let singleQuotes = count_list textBeforeCursor (CHR 0x27);
                  doubleQuotes = count_list textBeforeCursor (CHR 0x22);
                  backticks = count_list textBeforeCursor (CHR 0x60) in
              Inr (singleQuotes mod 2 \<noteq> 0 \<or> doubleQuotes mod 2 \<noteq> 0 \<or> backticks mod 2 \<noteq> 0))
           else Inr False))"

text \<open>\<^verbatim>\<open>/^[A-Z][A-Z0-9_]* *= *[^=]/\<close>\<close>

definition pythonConstant :: rx where
  "pythonConstant = seqs [Bol, Cls is_upper,
     Many (\<lambda>c. is_upper c \<or> is_digit c \<or> c = CHR ''_''),
     Many (\<lambda>c. c = CHR '' ''), chr (CHR ''=''), Many (\<lambda>c. c = CHR '' ''),
     Cls (notchr (CHR ''=''))]"

text \<open>The loop of the Go case, with its flag \<^verbatim>\<open>inImportBlock\<close>.\<close>

fun goImports :: "bool \<Rightarrow> string list \<Rightarrow> string list" where
  "goImports inImportBlock [] = []"
| "goImports inImportBlock (ln # rest) =
     (let trimmed = trim ln in
      if startsWith trimmed ''package '' then ln # goImports inImportBlock rest
      else if startsWith trimmed (''import '' @ [CHR 0x22]) \<or> trimmed = ''import (''
        then ln # goImports True rest
      else if inImportBlock
        then ln # goImports (\<not> (trimmed = '')'' \<or> endsWith trimmed '')'')) rest
      else goImports inImportBlock rest)"

definition getImportStatements :: "string \<Rightarrow> string \<Rightarrow> string" where
  "getImportStatements languageId documentText =
     (let lines = split nl documentText;
          imports =
            (if languageId \<in> set [''javascript'', ''typescript''] then
               filter (\<lambda>ln. let trimmed = trim ln in
                  startsWith trimmed ''import '' \<or> startsWith trimmed ''export ''
                  \<or> startsWith trimmed ''require('') lines
             else if languageId = ''python'' then
               filter (\<lambda>ln. let trimmed = trim ln in
                  startsWith trimmed ''import '' \<or> startsWith trimmed ''from ''
                  \<or> matches trimmed pythonConstant) lines
             else if languageId \<in> set [''java'', ''kotlin''] then
               filter (\<lambda>ln. let trimmed = trim ln in
                  startsWith trimmed ''package '' \<or> startsWith trimmed ''import '') lines
             else if languageId = ''go'' then goImports False lines
             else if languageId = ''rust'' then
               filter (\<lambda>ln. let trimmed = trim ln in
                  startsWith trimmed ''use '' \<or> startsWith trimmed ''#[''
                  \<or> startsWith trimmed ''extern crate '') lines
             else [])
      in join [nl] imports)"

text \<open>The patterns of \<^verbatim>\<open>isBlockStart\<close>.\<close>

definition braceAtEnd :: rx where
  \<comment> \<open>\<^verbatim>\<open>/\{\s*$/\<close>\<close>
  "braceAtEnd = seqs [chr (CHR ''{''), Many is_space, Eol]"

definition keywordAtStart :: "string list \<Rightarrow> rx" where
  \<comment> \<open>\<^verbatim>\<open>/^(k1|k2|...)\b/\<close>\<close>
  "keywordAtStart ks = seqs [Bol, alts ks, Wb]"

definition callWithBrace :: rx where
  \<comment> \<open>\<^verbatim>\<open>/^[a-zA-Z0-9_$]+\s*\([^)]*\)\s*{/\<close>\<close>
  "callWithBrace = seqs [Bol, many1 (\<lambda>c. is_word c \<or> c = CHR ''$''), Many is_space,
     chr (CHR ''(''), Many (notchr (CHR '')'')), chr (CHR '')''), Many is_space, chr (CHR ''{'')]"

definition arrowBrace :: rx where
  \<comment> \<open>\<^verbatim>\<open>/=>\s*{/\<close>\<close>
  "arrowBrace = seqs [lit ''=>'', Many is_space, chr (CHR ''{'')]"

definition emptyParensBrace :: rx where
  \<comment> \<open>\<^verbatim>\<open>/\(\s*\)\s*{/\<close>\<close>
  "emptyParensBrace = seqs [chr (CHR ''(''), Many is_space, chr (CHR '')''), Many is_space,
     chr (CHR ''{'')]"

definition pythonBlock :: rx where
  \<comment> \<open>\<^verbatim>\<open>/^(def|class|if|for|while|try|elif|else|except|with)\b.*:$/\<close>\<close>
  "pythonBlock = seqs [Bol, alts [''def'', ''class'', ''if'', ''for'', ''while'', ''try'',
     ''elif'', ''else'', ''except'', ''with''], Wb, Many dot, chr (CHR '':''), Eol]"

definition rubyDo :: rx where
  \<comment> \<open>\<^verbatim>\<open>/\bdo(\s*\|[^|]*\|)?\s*$/\<close>\<close>
  "rubyDo = seqs [Wb, lit ''do'',
     Opt (seqs [Many is_space, chr (CHR ''|''), Many (notchr (CHR ''|'')), chr (CHR ''|'')]),
     Many is_space, Eol]"

definition isBlockStart :: "string \<Rightarrow> string \<Rightarrow> bool" where
  "isBlockStart languageId ln =
     (if languageId \<in> set [''javascript'', ''typescript'', ''java'', ''c'', ''cpp'', ''csharp''] then
        matches ln (keywordAtStart [''function'', ''class'', ''if'', ''for'', ''while'',
            ''switch'', ''try'', ''else if'', ''else'', ''do''])
        \<or> matches ln callWithBrace \<or> matches ln arrowBrace
        \<or> matches ln emptyParensBrace \<or> matches ln braceAtEnd
      else if languageId = ''python'' then matches ln pythonBlock
      else if languageId = ''ruby'' then
        matches ln (keywordAtStart [''def'', ''class'', ''module'', ''if'', ''unless'',
            ''while'', ''until'', ''for'', ''begin'', ''case''])
        \<or> matches ln rubyDo
      else if languageId = ''go'' then
        matches ln (keywordAtStart [''func'', ''type'', ''if'', ''for'', ''switch'',
            ''select'', ''case'', ''default''])
        \<or> matches ln braceAtEnd
      else if languageId = ''rust'' then
        matches ln (keywordAtStart [''fn'', ''struct'', ''enum'', ''impl'', ''trait'', ''if'',
            ''while'', ''for'', ''loop'', ''match''])
        \<or> matches ln braceAtEnd
      else
        matches ln (keywordAtStart [''function'', ''class'', ''if'', ''for'', ''while'', ''try''])
        \<or> matches ln braceAtEnd)"

text \<open>
  One round of the backward loop of \<^verbatim>\<open>getCurrentScope\<close> at line \<open>i\<close>: the lines the
  loop leaves with, if it breaks there.
\<close>

definition scopeAt :: "string \<Rightarrow> string list \<Rightarrow> nat \<Rightarrow> nat \<Rightarrow> nat \<Rightarrow> string list option" where
  "scopeAt languageId lines pl currentIndent i =
     (let ln = lines ! i; lineIndent = length (leadingWhitespace ln) in
      if lineIndent < currentIndent \<and> isBlockStart languageId (trim ln)
        then Some (slice lines i pl)
      else if pl - i \<ge> 30 then Some (slice lines (max 0 (pl - 30)) pl)
      else None)"

text \<open>\<^verbatim>\<open>for (let i = position.line; i >= 0; i--)\<close>; the lines stay empty when it runs out.\<close>

fun scopeLoop :: "string \<Rightarrow> string list \<Rightarrow> nat \<Rightarrow> nat \<Rightarrow> nat \<Rightarrow> string list" where
  "scopeLoop languageId lines pl currentIndent 0 =
     (case scopeAt languageId lines pl currentIndent 0 of Some r \<Rightarrow> r | None \<Rightarrow> [])"
| "scopeLoop languageId lines pl currentIndent (Suc j) =
     (case scopeAt languageId lines pl currentIndent (Suc j) of
        Some r \<Rightarrow> r
      | None \<Rightarrow> scopeLoop languageId lines pl currentIndent j)"

text \<open>The number of lines the loop reads before it leaves.\<close>

fun scopeExamined :: "string \<Rightarrow> string list \<Rightarrow> nat \<Rightarrow> nat \<Rightarrow> nat \<Rightarrow> nat" where
  "scopeExamined languageId lines pl currentIndent 0 = 1"
| "scopeExamined languageId lines pl currentIndent (Suc j) =
     (case scopeAt languageId lines pl currentIndent (Suc j) of
        Some r \<Rightarrow> 1
      | None \<Rightarrow> 1 + scopeExamined languageId lines pl currentIndent j)"

text \<open>
  Line \<open>k\<close> is a block opener for the loop: less indented than the cursor's line, and
  a block start of the language.
\<close>

definition opener :: "string \<Rightarrow> string list \<Rightarrow> nat \<Rightarrow> nat \<Rightarrow> bool" where
  "opener languageId lines currentIndent k \<longleftrightarrow>
     length (leadingWhitespace (lines ! k)) < currentIndent
     \<and> isBlockStart languageId (trim (lines ! k))"

text \<open>
  \<^verbatim>\<open>lines[position.line]\<close> is \<^verbatim>\<open>undefined\<close> when the text before the position has
  fewer lines, and \<^verbatim>\<open>.match\<close> on it raises a \<^verbatim>\<open>TypeError\<close>.
\<close>

definition getCurrentScope :: "string \<Rightarrow> document \<Rightarrow> position \<Rightarrow> error + string" where
  "getCurrentScope languageId doc pos =
     (let textBefore = getTextRange doc \<lparr>line = 0, character = 0\<rparr> pos;
          lines = split nl textBefore in
      if line pos \<ge> length lines then Inl TypeError
      else
        (let currentIndent = length (leadingWhitespace (lines ! line pos)) in
         Inr (join [nl] (scopeLoop languageId lines (line pos) currentIndent (line pos)))))"

text \<open>The TypeScript loop of \<^verbatim>\<open>getGlobalDeclarations\<close>, with its three variables.\<close>

definition bracketDelta :: "string \<Rightarrow> int" where
  "bracketDelta trimmed = int (count_list trimmed (CHR ''{'')) - int (count_list trimmed (CHR ''}''))"

fun tsDeclarations :: "bool \<Rightarrow> int \<Rightarrow> string list \<Rightarrow> string list \<Rightarrow> string list" where
  "tsDeclarations inDeclaration bracketCount declarationLines [] = []"
| "tsDeclarations inDeclaration bracketCount declarationLines (ln # rest) =
     (let trimmed = trim ln in
      if \<not> inDeclaration \<and> (startsWith trimmed ''interface '' \<or> startsWith trimmed ''type ''
            \<or> startsWith trimmed ''class '' \<or> startsWith trimmed ''enum '')
      then
        (let bc = 0 + bracketDelta trimmed in
         if bc = 0 \<and> CHR '';'' \<in> set trimmed
         then ln # tsDeclarations False bc [] rest
         else tsDeclarations True bc [ln] rest)
      else if inDeclaration then
        (let dl = declarationLines @ [ln]; bc = bracketCount + bracketDelta trimmed in
         if bc = 0
         then join [nl] dl # tsDeclarations False bc [] rest
         else tsDeclarations True bc dl rest)
      else tsDeclarations inDeclaration bracketCount declarationLines rest)"

definition getGlobalDeclarations :: "string \<Rightarrow> string \<Rightarrow> string" where
  "getGlobalDeclarations languageId documentText =
     (let lines = split nl documentText;
          imports = getImportStatements languageId documentText;
          declarations = (if imports \<noteq> [] then [imports] else []) @
            (if languageId = ''typescript'' then tsDeclarations False 0 [] lines
             else if languageId = ''javascript'' then
               filter (\<lambda>ln. let trimmed = trim ln in
                  startsWith trimmed ''class '' \<or> startsWith trimmed ''const ''
                  \<or> startsWith trimmed ''export '') lines
             else if languageId = ''python'' then
               filter (\<lambda>ln. let trimmed = trim ln in
                  startsWith trimmed ''class '' \<or> matches trimmed pythonConstant) lines
             else [])
      in join [nl] declarations)"

text \<open>The patterns of \<^verbatim>\<open>isAppropriateMultilineLocation\<close>.\<close>

definition braceTail :: "rx list" where
  \<comment> \<open>\<^verbatim>\<open>\s*{?\s*$\<close>\<close>
  "braceTail = [Many is_space, Opt (chr (CHR ''{'')), Many is_space, Eol]"

definition functionHead :: rx where
  \<comment> \<open>\<^verbatim>\<open>/function\s*\([^)]*\)\s*{?\s*$/\<close>\<close>
  "functionHead = seqs ([lit ''function'', Many is_space, chr (CHR ''(''),
     Many (notchr (CHR '')'')), chr (CHR '')'')] @ braceTail)"

definition extendsClause :: "string \<Rightarrow> rx" where
  \<comment> \<open>\<^verbatim>\<open>(\s+extends\s+\w+)?\<close>, and the same with \<^verbatim>\<open>implements\<close>\<close>
  "extendsClause kw = Opt (seqs [many1 is_space, lit kw, many1 is_space, many1 is_word])"

definition classHead :: rx where
  \<comment> \<open>\<^verbatim>\<open>/class\s+\w+(\s+extends\s+\w+)?\s*{?\s*$/\<close>\<close>
  "classHead = seqs ([lit ''class'', many1 is_space, many1 is_word, extendsClause ''extends'']
     @ braceTail)"

definition pythonDef :: rx where
  \<comment> \<open>\<^verbatim>\<open>/def\s+\w+\s*\([^)]*\)\s*:\s*$/\<close>\<close>
  "pythonDef = seqs [lit ''def'', many1 is_space, many1 is_word, Many is_space,
     chr (CHR ''(''), Many (notchr (CHR '')'')), chr (CHR '')''), Many is_space,
     chr (CHR '':''), Many is_space, Eol]"

definition pythonClass :: rx where
  \<comment> \<open>\<^verbatim>\<open>/class\s+\w+(\s*\([^)]*\))?\s*:\s*$/\<close>\<close>
  "pythonClass = seqs [lit ''class'', many1 is_space, many1 is_word,
     Opt (seqs [Many is_space, chr (CHR ''(''), Many (notchr (CHR '')'')), chr (CHR '')'')]),
     Many is_space, chr (CHR '':''), Many is_space, Eol]"

definition parenTail :: rx where
  \<comment> \<open>\<^verbatim>\<open>/\)\s*{?\s*$/\<close>\<close>
  "parenTail = seqs (chr (CHR '')'') # braceTail)"

definition javaClassHead :: rx where
  \<comment> \<open>\<^verbatim>\<open>/class\s+\w+(\s+extends\s+\w+)?(\s+implements\s+\w+)?\s*{?\s*$/\<close>\<close>
  "javaClassHead = seqs ([lit ''class'', many1 is_space, many1 is_word,
     extendsClause ''extends'', extendsClause ''implements''] @ braceTail)"

definition isAppropriateMultilineLocation :: "string \<Rightarrow> string \<Rightarrow> bool" where
  "isAppropriateMultilineLocation languageId currentLineText =
     (let trimmedLine = trim currentLineText in
      if languageId \<in> set [''javascript'', ''typescript''] then
        endsWith trimmedLine ''{'' \<or> endsWith trimmedLine ''=>'' \<or> endsWith trimmedLine ''=> {''
        \<or> matches trimmedLine functionHead \<or> matches trimmedLine classHead
      else if languageId = ''python'' then
        endsWith trimmedLine '':'' \<or> matches trimmedLine pythonDef
        \<or> matches trimmedLine pythonClass
      else if languageId \<in> set [''java'', ''kotlin'', ''c'', ''cpp'', ''csharp''] then
        endsWith trimmedLine ''{'' \<or> matches trimmedLine parenTail
        \<or> matches trimmedLine javaClassHead
      else endsWith trimmedLine ''{'' \<or> endsWith trimmedLine '':'')"


section \<open>Response sanitizer (helpers/model-manager.ts)\<close>

text \<open>
  \<^verbatim>\<open>replace(/^```[\w]*\n/, "")\<close>: the class \<^verbatim>\<open>[\w]\<close> never matches a line feed,
  so the pattern matches exactly when the longest run of word characters after the
  three backticks is followed by a line feed.
\<close>

definition stripOpeningFence :: "string \<Rightarrow> string" where
  "stripOpeningFence s =
     (if startsWith s ''```'' then
        (case dropWhile is_word (drop 3 s) of
           [] \<Rightarrow> s
         | c # rest \<Rightarrow> if c = nl then rest else s)
      else s)"

text \<open>\<^verbatim>\<open>replace(/\n```$/, "")\<close>: without the \<^verbatim>\<open>m\<close> flag, \<^verbatim>\<open>$\<close> is the end of the input.\<close>

definition stripClosingFence :: "string \<Rightarrow> string" where
  "stripClosingFence s = (if endsWith s (nl # ''```'') then take (length s - 4) s else s)"

definition sanitizeCompletion :: "string \<Rightarrow> string" where
  "sanitizeCompletion completion =
     (let sanitized = trim completion;
          sanitized = stripClosingFence (stripOpeningFence sanitized) in
      if includesStr sanitized [nl, nl] then firstPart [nl, nl] sanitized else sanitized)"


section \<open>Re-indentation (helpers/multiline-provider.ts)\<close>

text \<open>The callback of \<^verbatim>\<open>lines.map\<close> for the lines after the first.\<close>

definition indentLine :: "string \<Rightarrow> string \<Rightarrow> string" where
  "indentLine baseIndentation ln =
     (if trim ln = [] then ln
      else
        (let lineIndent = leadingWhitespace ln in
         if lineIndent \<noteq> [] then
           (if startsWith ln baseIndentation then ln
            else baseIndentation @ drop (length lineIndent) ln)
         else baseIndentation @ ln))"

definition applyIndentation :: "string \<Rightarrow> string \<Rightarrow> string" where
  "applyIndentation suggestion baseIndentation =
     (let lines = split nl suggestion in
      if length lines \<le> 1 then suggestion
      else join [nl] (map (\<lambda>(index, ln). if index = 0 then ln else indentLine baseIndentation ln)
                        (enumerate 0 lines)))"


section \<open>Context assembly and trigger policy (extension.ts, helpers/multiline-provider.ts)\<close>

text \<open>The settings the two providers read, with the defaults of their \<^verbatim>\<open>config.get\<close> calls.\<close>

record config =
  skipInComments :: bool
  skipInStrings :: bool
  triggerCharacters :: "string list"
  minTriggerLength :: int
  multilineTriggers :: "string list"
  contextLineCount :: nat
  includeImportsInContext :: bool
  useProjectContext :: bool

definition defaultConfig :: config where
  "defaultConfig = \<lparr>skipInComments = True, skipInStrings = False,
     triggerCharacters = [''.'', ''('', ''{''], minTriggerLength = 3,
     multilineTriggers = [''{'', '':'', ''=>'', ''->'', ''do'', ''then''],
     contextLineCount = 50, includeImportsInContext = True, useProjectContext = True\<rparr>"

text \<open>
  A sibling file as the workspace hands it over: the path \<^verbatim>\<open>findFiles\<close> found, its
  workspace-relative path, and the language and text of the opened document.
\<close>

record relatedFile =
  fsPath :: string
  relativePath :: string
  relatedLanguage :: string
  relatedText :: string

fun projectContextOf :: "string \<Rightarrow> relatedFile list \<Rightarrow> string" where
  "projectContextOf docPath [] = []"
| "projectContextOf docPath (f # files) =
     (if fsPath f \<noteq> docPath then
        (let declarations = getGlobalDeclarations (relatedLanguage f) (relatedText f) in
         if declarations \<noteq> []
         then [nl] @ ''// From '' @ relativePath f @ '':'' @ [nl] @ declarations @ [nl]
              @ projectContextOf docPath files
         else projectContextOf docPath files)
      else projectContextOf docPath files)"

definition getProjectContext :: "config \<Rightarrow> string \<Rightarrow> relatedFile list \<Rightarrow> string" where
  "getProjectContext cfg docPath files =
     (if \<not> useProjectContext cfg then [] else projectContextOf docPath files)"

record contextData =
  contextText :: string
  currentLine :: string
  cursorPosition :: position
  indentation :: string
  isInComment :: bool
  isInString :: bool

text \<open>\<^verbatim>\<open>[...].filter(Boolean).join("\n")\<close>\<close>

definition assemble :: "string list \<Rightarrow> string" where
  "assemble sections = join [nl] (filter (\<lambda>s. s \<noteq> []) sections)"

definition getContextData ::
  "config \<Rightarrow> string \<Rightarrow> document \<Rightarrow> string \<Rightarrow> relatedFile list \<Rightarrow> position \<Rightarrow> error + contextData" where
  "getContextData cfg languageId doc docPath files pos =
     (let projectContext = (if useProjectContext cfg then getProjectContext cfg docPath files else []);
          startLine = max 0 (line pos - contextLineCount cfg);
          importStatements =
            (if includeImportsInContext cfg then getImportStatements languageId (getText doc) else [])
      in case getCurrentScope languageId doc pos of
           Inl e \<Rightarrow> Inl e
         | Inr currentScope \<Rightarrow>
             (let immediateContext = getTextRange doc \<lparr>line = startLine, character = 0\<rparr> pos in
              case lineAt doc (line pos) of
                Inl e \<Rightarrow> Inl e
              | Inr ln \<Rightarrow>
                  (case isPositionInComment languageId doc pos of
                     Inl e \<Rightarrow> Inl e
                   | Inr inComment \<Rightarrow>
                       (case isPositionInString languageId doc pos of
                          Inl e \<Rightarrow> Inl e
                        | Inr inString \<Rightarrow>
                            Inr \<lparr>contextText =
                                   assemble [importStatements, projectContext, currentScope,
                                             immediateContext],
                                 currentLine = ln,
                                 cursorPosition = pos,
                                 indentation = leadingWhitespace ln,
                                 isInComment = inComment,
                                 isInString = inString\<rparr>))))"

datatype triggerKind = Invoke | Automatic

definition shouldTriggerCompletion :: "config \<Rightarrow> contextData \<Rightarrow> triggerKind \<Rightarrow> bool" where
  "shouldTriggerCompletion cfg cd kind =
     (if skipInComments cfg \<and> isInComment cd then False
      else if skipInStrings cfg \<and> isInString cd then False
      else
        (let endsWithTrigger =
               list_ex (\<lambda>ch. endsWith (trimRight (currentLine cd)) ch) (triggerCharacters cfg) in
         if kind = Invoke then True
         else if endsWithTrigger then True
         else if kind = Automatic \<and> int (length (trim (currentLine cd))) \<ge> minTriggerLength cfg
           then True
         else False))"

text \<open>
  The decision of the inline provider for a language, a document and a position:
  \<^verbatim>\<open>getContextData\<close>, then \<^verbatim>\<open>shouldTriggerCompletion\<close> on what it returned.
\<close>

definition inlineDecision ::
  "config \<Rightarrow> string \<Rightarrow> document \<Rightarrow> string \<Rightarrow> relatedFile list \<Rightarrow> position \<Rightarrow> triggerKind
     \<Rightarrow> error + bool" where
  "inlineDecision cfg languageId doc docPath files pos kind =
     (case getContextData cfg languageId doc docPath files pos of
        Inl e \<Rightarrow> Inl e
      | Inr cd \<Rightarrow> Inr (shouldTriggerCompletion cfg cd kind))"

text \<open>
  The context bundle as the specification words it: the non-empty sections, joined
  with blank lines.
\<close>

definition specContextBundle :: "string list \<Rightarrow> string" where
  "specContextBundle sections = join [nl, nl] (filter (\<lambda>s. s \<noteq> []) sections)"

text \<open>
  The multiline provider: the token test in front of \<^verbatim>\<open>provideInlineCompletionItems\<close>
  (skipped on explicit invocation), then \<^verbatim>\<open>shouldTriggerMultilineCompletion\<close> on the
  flags and the line of its context data, which it computes as the inline provider
  does (\<^verbatim>\<open>currentLineText\<close> is the field \<open>currentLine\<close> here).
\<close>

definition shouldTriggerMultilineCompletion :: "string \<Rightarrow> contextData \<Rightarrow> bool" where
  "shouldTriggerMultilineCompletion languageId cd =
     (if isInComment cd \<or> isInString cd then False
      else isAppropriateMultilineLocation languageId (currentLine cd))"

definition multilineDecision :: "config \<Rightarrow> string \<Rightarrow> contextData \<Rightarrow> triggerKind \<Rightarrow> bool" where
  "multilineDecision cfg languageId cd kind =
     (if kind \<noteq> Invoke
         \<and> \<not> list_ex (\<lambda>trigger. endsWith (trimRight (currentLine cd)) trigger) (multilineTriggers cfg)
      then False
      else shouldTriggerMultilineCompletion languageId cd)"


section \<open>Request pipeline (helpers/utils.ts, extension.ts)\<close>

text \<open>
  The module-level state of \<^verbatim>\<open>utils.ts\<close>: the call counter of the rate limiter, the
  suggestion cache (a \<^verbatim>\<open>Map<string, string>\<close>), and the single timer handle that the
  closure returned by \<^verbatim>\<open>debounce\<close> shares between all its calls. A pending timeout
  remembers the call that armed it (its caller and its prompt). \<^verbatim>\<open>inflight\<close> holds the
  calls of \<^verbatim>\<open>generateSuggestion\<close> that wait for the model's response,
  \<^verbatim>\<open>upstream\<close> logs the prompts sent to the model, and \<^verbatim>\<open>delivered\<close> records what
  the \<^verbatim>\<open>await getCachedSuggestion(...)\<close> of each caller returned. JavaScript runs one
  synchronous segment at a time, so every event below is one atomic step.
\<close>

record pipeline =
  callCount :: nat
  suggestionCache :: "string \<rightharpoonup> string"
  timer :: "(nat \<times> string) option"
  inflight :: "(nat \<times> string) list"
  upstream :: "string list"
  delivered :: "nat \<rightharpoonup> string"

definition initial :: pipeline where
  "initial = \<lparr>callCount = 0, suggestionCache = Map.empty, timer = None,
     inflight = [], upstream = [], delivered = Map.empty\<rparr>"

definition MAX_CALLS_PER_MINUTE :: nat where
  "MAX_CALLS_PER_MINUTE = 60"

text \<open>\<^verbatim>\<open>rateLimitCheck\<close>: refuse at the ceiling, otherwise count the call.\<close>

definition rateLimitCheck :: "pipeline \<Rightarrow> bool \<times> pipeline" where
  "rateLimitCheck st =
     (if callCount st \<ge> MAX_CALLS_PER_MINUTE then (False, st)
      else (True, st\<lparr>callCount := callCount st + 1\<rparr>))"

text \<open>The \<^verbatim>\<open>setInterval\<close> callback that starts a new window.\<close>

definition resetWindow :: "pipeline \<Rightarrow> pipeline" where
  "resetWindow st = st\<lparr>callCount := 0\<rparr>"

text \<open>\<open>n\<close> successive calls of \<^verbatim>\<open>rateLimitCheck\<close> inside one window, with their answers.\<close>

fun checks :: "nat \<Rightarrow> pipeline \<Rightarrow> bool list \<times> pipeline" where
  "checks 0 st = ([], st)"
| "checks (Suc n) st =
     (case rateLimitCheck st of (b, st1) \<Rightarrow>
        (case checks n st1 of (bs, st2) \<Rightarrow> (b # bs, st2)))"

text \<open>Any interleaving of limiter checks and window resets.\<close>

datatype limiter_event = Check | Reset

fun limiter_run :: "limiter_event list \<Rightarrow> pipeline \<Rightarrow> pipeline" where
  "limiter_run [] st = st"
| "limiter_run (Check # es) st = limiter_run es (snd (rateLimitCheck st))"
| "limiter_run (Reset # es) st = limiter_run es (resetWindow st)"

definition getCacheKey :: "string \<Rightarrow> string" where
  "getCacheKey prompt = prompt"

text \<open>
  \<^verbatim>\<open>getCachedSuggestion\<close> up to its \<^verbatim>\<open>await\<close>: a hit returns the cached string; a miss
  calls the debounced function, which clears the pending timeout, if any, and arms a
  new one for this call. The promise of a call whose timeout was cleared has no
  other reference to its \<^verbatim>\<open>resolve\<close>: nothing is kept for it.
\<close>

definition getCachedSuggestion :: "nat \<Rightarrow> string \<Rightarrow> pipeline \<Rightarrow> pipeline" where
  "getCachedSuggestion caller prompt st =
     (let key = getCacheKey prompt in
      case suggestionCache st key of
        Some v \<Rightarrow> st\<lparr>delivered := (delivered st)(caller \<mapsto> v)\<rparr>
      | None \<Rightarrow> st\<lparr>timer := Some (caller, prompt)\<rparr>)"

text \<open>
  The timeout callback \<^verbatim>\<open>resolve(fn(...args))\<close>: \<^verbatim>\<open>generateSuggestion\<close> starts and
  sends the prompt to the model.
\<close>

definition timerFires :: "pipeline \<Rightarrow> pipeline" where
  "timerFires st =
     (case timer st of
        None \<Rightarrow> st
      | Some (caller, prompt) \<Rightarrow>
          st\<lparr>timer := None, upstream := upstream st @ [prompt],
             inflight := inflight st @ [(caller, prompt)]\<rparr>)"

text \<open>
  The model answers a call in flight: \<^verbatim>\<open>generateSuggestion\<close> returns the trimmed
  text, and \<^verbatim>\<open>getCachedSuggestion\<close> resumes, stores it and returns it.
\<close>

definition modelResponds :: "nat \<Rightarrow> string \<Rightarrow> string \<Rightarrow> pipeline \<Rightarrow> pipeline" where
  "modelResponds caller prompt response st =
     (if (caller, prompt) \<in> set (inflight st) then
        (let suggestion = trim response in
         st\<lparr>inflight := remove1 (caller, prompt) (inflight st),
            suggestionCache := (suggestionCache st)(getCacheKey prompt \<mapsto> suggestion),
            delivered := (delivered st)(caller \<mapsto> suggestion)\<rparr>)
      else st)"

datatype event =
    Call nat string
  | TimerFires
  | Responds nat string string

fun step :: "event \<Rightarrow> pipeline \<Rightarrow> pipeline" where
  "step (Call caller prompt) st = getCachedSuggestion caller prompt st"
| "step TimerFires st = timerFires st"
| "step (Responds caller prompt response) st = modelResponds caller prompt response st"

fun run :: "event list \<Rightarrow> pipeline \<Rightarrow> pipeline" where
  "run [] st = st"
| "run (e # es) st = run es (step e st)"

text \<open>
  A caller is an orphan when it holds no result, no pending timeout and no call in
  flight: nothing in the state refers to its promise.
\<close>

definition orphan :: "nat \<Rightarrow> pipeline \<Rightarrow> bool" where
  "orphan c st \<longleftrightarrow> delivered st c = None \<and> (\<forall>p. timer st \<noteq> Some (c, p))
     \<and> (\<forall>p. (c, p) \<notin> set (inflight st))"

text \<open>
  \<^verbatim>\<open>provideInlineCompletionItems\<close> of the inline provider, for a request whose
  prompt and trigger decision are given, in program order: the API key, the enabled
  languages, the rate limiter, the trigger decision, and then
  \<^verbatim>\<open>getInlineCompletions\<close>, which asks \<^verbatim>\<open>getCachedSuggestion\<close> and sanitizes a
  string it gets back. The steps of one request are taken together: no other event
  is interleaved at the suspension points between them. On a miss the request waits
  for the debounced call.
\<close>

record request =
  apiKeyConfigured :: bool
  languageEnabled :: bool
  triggers :: bool
  cancellationRequested :: bool
  requester :: nat
  prompt :: string

datatype response = NoCompletions | RateLimited | Completions "string list" | Awaiting

definition provideInlineCompletionItems :: "request \<Rightarrow> pipeline \<Rightarrow> response \<times> pipeline" where
  "provideInlineCompletionItems rq st =
     (if \<not> apiKeyConfigured rq then (NoCompletions, st)
      else if \<not> languageEnabled rq then (NoCompletions, st)
      else
        (case rateLimitCheck st of
           (False, st1) \<Rightarrow> (RateLimited, st1)
         | (True, st1) \<Rightarrow>
             if \<not> triggers rq then (NoCompletions, st1)
             else
               (let st2 = getCachedSuggestion (requester rq) (prompt rq) st1 in
                case suggestionCache st1 (getCacheKey (prompt rq)) of
                  None \<Rightarrow> (Awaiting, st2)
                | Some suggestion \<Rightarrow>
                    if cancellationRequested rq then (NoCompletions, st2)
                    else (Completions [sanitizeCompletion suggestion], st2))))"


text \<open>
  \<^verbatim>\<open>provideInlineCompletionItems\<close> of the multiline provider, in the same way: its
  trigger decision, then \<^verbatim>\<open>getMultilineCompletions\<close>, which returns nothing without
  an API key and otherwise asks \<^verbatim>\<open>getCachedSuggestion\<close> and sanitizes the string it
  gets back; the provider re-indents it. This provider has no test of the enabled
  languages and no call of \<^verbatim>\<open>rateLimitCheck\<close>.
\<close>

definition provideMultilineCompletionItems ::
  "request \<Rightarrow> string \<Rightarrow> pipeline \<Rightarrow> response \<times> pipeline" where
  "provideMultilineCompletionItems rq baseIndentation st =
     (if \<not> triggers rq then (NoCompletions, st)
      else if \<not> apiKeyConfigured rq then (NoCompletions, st)
      else
        (let st1 = getCachedSuggestion (requester rq) (prompt rq) st in
         case suggestionCache st (getCacheKey (prompt rq)) of
           None \<Rightarrow> (Awaiting, st1)
         | Some suggestion \<Rightarrow>
             if cancellationRequested rq then (NoCompletions, st1)
             else (Completions [applyIndentation (sanitizeCompletion suggestion) baseIndentation],
                   st1)))"

text \<open>A sequence of requests, each through the provider, with their responses.\<close>

fun provideAll :: "request list \<Rightarrow> pipeline \<Rightarrow> response list \<times> pipeline" where
  "provideAll [] st = ([], st)"
| "provideAll (rq # rqs) st =
     (case provideInlineCompletionItems rq st of (r, st1) \<Rightarrow>
        (case provideAll rqs st1 of (rs, st2) \<Rightarrow> (r # rs, st2)))"


section \<open>Facts about the string operations\<close>

lemma split_not_Nil: "split d s \<noteq> []"
  by (induction s) (auto split: list.splits)

lemma split_no_sep: "l \<in> set (split d s) \<Longrightarrow> d \<notin> set l"
proof (induction s arbitrary: l)
  case Nil
  then show ?case by simp
next
  case (Cons c cs)
  show ?case
  proof (cases "c = d")
    case True
    with Cons show ?thesis by auto
  next
    case False
    obtain x xs where sp: "split d cs = x # xs"
      using split_not_Nil [of d cs] by (cases "split d cs") auto
    have "d \<notin> set x" and "\<And>y. y \<in> set xs \<Longrightarrow> d \<notin> set y"
      using Cons.IH sp by auto
    with Cons.prems False sp show ?thesis by auto
  qed
qed

lemma split_without_sep: "d \<notin> set x \<Longrightarrow> split d x = [x]"
  by (induction x) auto

lemma split_append_sep: "d \<notin> set x \<Longrightarrow> split d (x @ d # r) = x # split d r"
  by (induction x) auto

lemma split_join:
  "xs \<noteq> [] \<Longrightarrow> (\<And>x. x \<in> set xs \<Longrightarrow> d \<notin> set x) \<Longrightarrow> split d (join [d] xs) = xs"
proof (induction xs)
  case Nil
  then show ?case by simp
next
  case (Cons x xs)
  have x: "d \<notin> set x" using Cons.prems by simp
  show ?case
  proof (cases xs)
    case Nil
    then show ?thesis using x by (simp add: split_without_sep)
  next
    case (Cons y ys)
    have "split d (join [d] xs) = xs"
      using Cons.IH Cons.prems Cons by simp
    then show ?thesis using x Cons by (simp add: split_append_sep)
  qed
qed

lemma join_split: "join [d] (split d s) = s"
proof (induction s)
  case Nil
  show ?case by simp
next
  case (Cons c cs)
  obtain x xs where sp: "split d cs = x # xs"
    using split_not_Nil [of d cs] by (cases "split d cs") auto
  show ?case
  proof (cases "c = d")
    case True
    with Cons sp show ?thesis by simp
  next
    case False
    have "join [d] ((c # x) # xs) = c # join [d] (x # xs)"
      by (cases xs) simp_all
    with Cons sp False show ?thesis by simp
  qed
qed

lemma dropWhile_all: "(\<forall>x \<in> set (dropWhile P s). P x) \<longleftrightarrow> (\<forall>x \<in> set s. P x)"
proof
  assume h: "\<forall>x \<in> set (dropWhile P s). P x"
  have "dropWhile P s = []"
  proof (rule ccontr)
    assume n: "dropWhile P s \<noteq> []"
    then have "\<not> P (hd (dropWhile P s))" by (rule hd_dropWhile)
    moreover have "hd (dropWhile P s) \<in> set (dropWhile P s)" using n by simp
    ultimately show False using h by blast
  qed
  then show "\<forall>x \<in> set s. P x" by simp
next
  assume "\<forall>x \<in> set s. P x"
  then show "\<forall>x \<in> set (dropWhile P s). P x" by (meson set_dropWhileD)
qed

lemma trim_Nil_iff: "trim s = [] \<longleftrightarrow> (\<forall>c \<in> set s. is_space c)"
  by (simp add: trim_def dropWhile_all)

lemma enumerate_rest:
  "0 < n \<Longrightarrow> map (\<lambda>(index, ln). if index = 0 then ln else f ln) (enumerate n ls) = map f ls"
  by (induction ls arbitrary: n) auto

lemma indentLine_no_nl:
  "nl \<notin> set b \<Longrightarrow> nl \<notin> set ln \<Longrightarrow> nl \<notin> set (indentLine b ln)"
  by (auto simp: indentLine_def Let_def dest: in_set_dropD)

text \<open>
  The lines of the re-indented suggestion: the first line as it was, every later line
  through \<open>indentLine\<close>, for a base indentation that holds no line feed.
\<close>

lemma applyIndentation_lines:
  assumes "nl \<notin> set b"
  shows "split nl (applyIndentation s b)
         = (case split nl s of [] \<Rightarrow> [] | l # ls \<Rightarrow> l # map (indentLine b) ls)"
proof -
  obtain l ls where sp: "split nl s = l # ls"
    using split_not_Nil [of nl s] by (cases "split nl s") auto
  show ?thesis
  proof (cases ls)
    case Nil
    with sp show ?thesis by (simp add: applyIndentation_def)
  next
    case (Cons a as)
    have mapped: "map (\<lambda>(index, ln). if index = 0 then ln else indentLine b ln) (enumerate 0 (l # ls))
        = l # map (indentLine b) ls"
      using enumerate_rest [of "Suc 0" "indentLine b" ls] by simp
    have out: "applyIndentation s b = join [nl] (l # map (indentLine b) ls)"
      using sp Cons mapped by (simp add: applyIndentation_def Let_def)
    have clean: "\<And>x. x \<in> set (l # map (indentLine b) ls) \<Longrightarrow> nl \<notin> set x"
    proof -
      fix x assume "x \<in> set (l # map (indentLine b) ls)"
      then consider "x = l" | y where "y \<in> set ls" "x = indentLine b y" by auto
      then show "nl \<notin> set x"
      proof cases
        case 1
        then show ?thesis using split_no_sep [of l nl s] sp by simp
      next
        case 2
        have "nl \<notin> set y" using split_no_sep [of y nl s] sp 2 by simp
        then show ?thesis using 2 assms indentLine_no_nl by simp
      qed
    qed
    have "split nl (join [nl] (l # map (indentLine b) ls)) = l # map (indentLine b) ls"
      by (rule split_join) (use clean in auto)
    with out sp show ?thesis by simp
  qed
qed


section \<open>Rate limiter\<close>

lemma checks_from:
  "fst (checks n st) = map (\<lambda>k. callCount st + k < MAX_CALLS_PER_MINUTE) [0..<n]"
proof (induction n arbitrary: st)
  case 0
  show ?case by simp
next
  case (Suc n)
  obtain b st1 where r: "rateLimitCheck st = (b, st1)" by (cases "rateLimitCheck st")
  have b: "b = (callCount st < MAX_CALLS_PER_MINUTE)"
    using r by (auto simp: rateLimitCheck_def split: if_splits)
  have c: "callCount st1 = (if b then callCount st + 1 else callCount st)"
    using r by (auto simp: rateLimitCheck_def split: if_splits)
  have tl: "fst (checks n st1) = map (\<lambda>k. callCount st + Suc k < MAX_CALLS_PER_MINUTE) [0..<n]"
    using Suc.IH [of st1] b c by (auto simp: MAX_CALLS_PER_MINUTE_def)
  have "[0..<Suc n] = 0 # map Suc [0..<n]"
    by (simp add: upt_conv_Cons map_Suc_upt del: upt_Suc)
  then have "map (\<lambda>k. callCount st + k < MAX_CALLS_PER_MINUTE) [0..<Suc n]
      = b # map (\<lambda>k. callCount st + Suc k < MAX_CALLS_PER_MINUTE) [0..<n]"
    by (simp add: b comp_def del: upt_Suc)
  moreover have "fst (checks (Suc n) st) = b # fst (checks n st1)"
    by (simp add: r split: prod.splits)
  ultimately show ?case using tl by simp
qed

lemma rateLimitCheck_bound:
  "callCount st \<le> MAX_CALLS_PER_MINUTE \<Longrightarrow>
   callCount (snd (rateLimitCheck st)) \<le> MAX_CALLS_PER_MINUTE"
  by (simp add: rateLimitCheck_def)

lemma limiter_run_bound:
  "callCount st \<le> MAX_CALLS_PER_MINUTE \<Longrightarrow>
   callCount (limiter_run es st) \<le> MAX_CALLS_PER_MINUTE"
proof (induction es arbitrary: st)
  case Nil
  then show ?case by simp
next
  case (Cons e es)
  show ?case
  proof (cases e)
    case Check
    then show ?thesis using Cons.IH [OF rateLimitCheck_bound [OF Cons.prems]] by simp
  next
    case Reset
    then show ?thesis using Cons.IH [of "resetWindow st"] by (simp add: resetWindow_def)
  qed
qed

lemma provide_limited:
  assumes "apiKeyConfigured rq" and "languageEnabled rq"
  shows "(fst (provideInlineCompletionItems rq st) = RateLimited)
           = (MAX_CALLS_PER_MINUTE \<le> callCount st)"
    and "callCount (snd (provideInlineCompletionItems rq st))
           = (if callCount st < MAX_CALLS_PER_MINUTE then callCount st + 1 else callCount st)"
  using assms
  by (auto simp: provideInlineCompletionItems_def rateLimitCheck_def getCachedSuggestion_def
      Let_def split: option.splits)

lemma provideAll_from:
  "(\<forall>rq \<in> set rqs. apiKeyConfigured rq \<and> languageEnabled rq) \<Longrightarrow>
   map (\<lambda>r. r = RateLimited) (fst (provideAll rqs st))
     = map (\<lambda>k. MAX_CALLS_PER_MINUTE \<le> callCount st + k) [0..<length rqs]"
proof (induction rqs arbitrary: st)
  case Nil
  show ?case by simp
next
  case (Cons rq rqs)
  obtain r st1 where p: "provideInlineCompletionItems rq st = (r, st1)"
    by (cases "provideInlineCompletionItems rq st")
  have g: "apiKeyConfigured rq" "languageEnabled rq" using Cons.prems by simp_all
  have r: "(r = RateLimited) = (MAX_CALLS_PER_MINUTE \<le> callCount st)"
    using provide_limited(1) [OF g, of st] p by simp
  have c: "callCount st1 = (if callCount st < MAX_CALLS_PER_MINUTE then callCount st + 1 else callCount st)"
    using provide_limited(2) [OF g, of st] p by simp
  have pt: "(MAX_CALLS_PER_MINUTE \<le> callCount st1 + k) = (MAX_CALLS_PER_MINUTE \<le> callCount st + Suc k)" for k
    using c by (cases "callCount st < MAX_CALLS_PER_MINUTE") simp_all
  have ih: "map (\<lambda>r. r = RateLimited) (fst (provideAll rqs st1))
      = map (\<lambda>k. MAX_CALLS_PER_MINUTE \<le> callCount st1 + k) [0..<length rqs]"
  proof (rule Cons.IH)
    show "\<forall>rq \<in> set rqs. apiKeyConfigured rq \<and> languageEnabled rq"
      using Cons.prems by simp
  qed
  have tl: "map (\<lambda>r. r = RateLimited) (fst (provideAll rqs st1))
      = map (\<lambda>k. MAX_CALLS_PER_MINUTE \<le> callCount st + Suc k) [0..<length rqs]"
    by (simp only: ih pt)
  have sh: "map (\<lambda>k. MAX_CALLS_PER_MINUTE \<le> callCount st + k) [0..<Suc (length rqs)]
      = (MAX_CALLS_PER_MINUTE \<le> callCount st)
        # map (\<lambda>k. MAX_CALLS_PER_MINUTE \<le> callCount st + Suc k) [0..<length rqs]"
  proof -
    have "[0..<Suc (length rqs)] = 0 # map Suc [0..<length rqs]"
      by (simp only: upt_conv_Cons [OF zero_less_Suc] map_Suc_upt)
    then show ?thesis by (simp only: list.map map_map comp_def add_0_right)
  qed
  have hd: "fst (provideAll (rq # rqs) st) = r # fst (provideAll rqs st1)"
    by (simp add: p split: prod.splits)
  show ?case
    by (simp only: hd length_Cons sh list.map tl r)
qed

lemma provideAll_append:
  "provideAll (xs @ ys) st =
     (case provideAll xs st of (rs, st1) \<Rightarrow>
        (case provideAll ys st1 of (rs', st2) \<Rightarrow> (rs @ rs', st2)))"
  by (induction xs arbitrary: st) (simp_all split: prod.splits)

lemma hit_step:
  assumes "apiKeyConfigured rq" "languageEnabled rq" "triggers rq" "\<not> cancellationRequested rq"
    and "suggestionCache st (getCacheKey (prompt rq)) = Some v"
    and "callCount st < MAX_CALLS_PER_MINUTE"
  shows "fst (provideInlineCompletionItems rq st) = Completions [sanitizeCompletion v]"
    and "callCount (snd (provideInlineCompletionItems rq st)) = callCount st + 1"
    and "suggestionCache (snd (provideInlineCompletionItems rq st)) = suggestionCache st"
  using assms
  by (simp_all add: provideInlineCompletionItems_def rateLimitCheck_def getCachedSuggestion_def
      Let_def)

lemma hits_pass:
  assumes g: "apiKeyConfigured rq" "languageEnabled rq" "triggers rq" "\<not> cancellationRequested rq"
  shows "suggestionCache st (getCacheKey (prompt rq)) = Some v \<Longrightarrow>
         callCount st + n \<le> MAX_CALLS_PER_MINUTE \<Longrightarrow>
           fst (provideAll (replicate n rq) st) = replicate n (Completions [sanitizeCompletion v])
         \<and> callCount (snd (provideAll (replicate n rq) st)) = callCount st + n
         \<and> suggestionCache (snd (provideAll (replicate n rq) st)) = suggestionCache st"
proof (induction n arbitrary: st)
  case 0
  show ?case by simp
next
  case (Suc n)
  obtain r st1 where p: "provideInlineCompletionItems rq st = (r, st1)"
    by (cases "provideInlineCompletionItems rq st")
  have lt: "callCount st < MAX_CALLS_PER_MINUTE" using Suc.prems(2) by simp
  have r: "r = Completions [sanitizeCompletion v]"
    using hit_step(1) [OF g Suc.prems(1) lt] p by simp
  have c: "callCount st1 = callCount st + 1"
    using hit_step(2) [OF g Suc.prems(1) lt] p by simp
  have m: "suggestionCache st1 = suggestionCache st"
    using hit_step(3) [OF g Suc.prems(1) lt] p by simp
  have ih: "fst (provideAll (replicate n rq) st1) = replicate n (Completions [sanitizeCompletion v])
         \<and> callCount (snd (provideAll (replicate n rq) st1)) = callCount st1 + n
         \<and> suggestionCache (snd (provideAll (replicate n rq) st1)) = suggestionCache st1"
  proof (rule Suc.IH)
    show "suggestionCache st1 (getCacheKey (prompt rq)) = Some v" using m Suc.prems(1) by simp
    show "callCount st1 + n \<le> MAX_CALLS_PER_MINUTE" using c Suc.prems(2) by simp
  qed
  obtain rs st2 where q: "provideAll (replicate n rq) st1 = (rs, st2)"
    by (cases "provideAll (replicate n rq) st1")
  have "provideAll (replicate (Suc n) rq) st = (r # rs, st2)"
    by (simp add: p q)
  then show ?case using ih q r c m by simp
qed

lemma multiline_unlimited:
  "fst (provideMultilineCompletionItems rq ind st) \<noteq> RateLimited
   \<and> callCount (snd (provideMultilineCompletionItems rq ind st)) = callCount st"
  by (simp add: provideMultilineCompletionItems_def getCachedSuggestion_def Let_def
      split: option.splits)

text \<open>
  Claim C3, the counterexample. The window starts with the counter at zero and the
  prompt \<^verbatim>\<open>p\<close> in the cache. Sixty requests for \<^verbatim>\<open>p\<close> are served from the cache, and
  each is charged to the limiter; the request for \<^verbatim>\<open>q\<close> that follows is the first
  cache-miss request of the window, and it is refused. Through the multiline provider,
  with the counter at the ceiling, the same cache-miss request is not refused: it
  waits for the model.
\<close>

theorem rate_limit_cache_miss_counterexample:
  "fst (provideAll
        (replicate 60 \<lparr>apiKeyConfigured = True, languageEnabled = True, triggers = True,
            cancellationRequested = False, requester = 1, prompt = ''p''\<rparr>
         @ [\<lparr>apiKeyConfigured = True, languageEnabled = True, triggers = True,
            cancellationRequested = False, requester = 2, prompt = ''q''\<rparr>])
        (initial\<lparr>suggestionCache := [''p'' \<mapsto> ''v'']\<rparr>))
     = replicate 60 (Completions [''v'']) @ [RateLimited]
   \<and> suggestionCache (initial\<lparr>suggestionCache := [''p'' \<mapsto> ''v'']\<rparr>) (getCacheKey ''q'') = None
   \<and> callCount (initial\<lparr>suggestionCache := [''p'' \<mapsto> ''v'']\<rparr>) = 0
   \<and> fst (provideMultilineCompletionItems
         \<lparr>apiKeyConfigured = True, languageEnabled = True, triggers = True,
          cancellationRequested = False, requester = 2, prompt = ''q''\<rparr> []
         (initial\<lparr>suggestionCache := [''p'' \<mapsto> ''v''], callCount := 60\<rparr>)) = Awaiting"
proof -
  define hit where "hit = \<lparr>apiKeyConfigured = True, languageEnabled = True, triggers = True,
            cancellationRequested = False, requester = 1, prompt = ''p''\<rparr>"
  define miss where "miss = \<lparr>apiKeyConfigured = True, languageEnabled = True, triggers = True,
            cancellationRequested = False, requester = 2, prompt = ''q''\<rparr>"
  define warm where "warm = initial\<lparr>suggestionCache := [''p'' \<mapsto> ''v'']\<rparr>"
  have g: "apiKeyConfigured hit" "languageEnabled hit" "triggers hit" "\<not> cancellationRequested hit"
    by (simp_all add: hit_def)
  have h: "suggestionCache warm (getCacheKey (prompt hit)) = Some ''v''"
    by (simp add: warm_def hit_def getCacheKey_def)
  have b: "callCount warm + 60 \<le> MAX_CALLS_PER_MINUTE"
    by (simp add: warm_def initial_def MAX_CALLS_PER_MINUTE_def)
  have sv: "sanitizeCompletion ''v'' = ''v''"
    by (simp add: sanitizeCompletion_def stripOpeningFence_def stripClosingFence_def
        trim_def is_space_def startsWith_def endsWith_def)
  note hp = hits_pass [OF g h b]
  obtain rs st1 where q: "provideAll (replicate 60 hit) warm = (rs, st1)"
    by (cases "provideAll (replicate 60 hit) warm")
  have rs: "rs = replicate 60 (Completions [''v''])" using hp q sv by simp
  have c: "callCount st1 = 60" using hp q by (simp add: warm_def initial_def)
  have last: "provideInlineCompletionItems miss st1 = (RateLimited, st1)"
    using c by (simp add: provideInlineCompletionItems_def rateLimitCheck_def
        MAX_CALLS_PER_MINUTE_def miss_def)
  have a: "fst (provideAll (replicate 60 hit @ [miss]) warm)
      = replicate 60 (Completions [''v'']) @ [RateLimited]"
    by (simp add: provideAll_append q last rs)
  have n: "suggestionCache warm (getCacheKey ''q'') = None"
    by (simp add: warm_def initial_def getCacheKey_def)
  have z: "callCount warm = 0" by (simp add: warm_def initial_def)
  have m: "fst (provideMultilineCompletionItems miss [] (warm\<lparr>callCount := 60\<rparr>)) = Awaiting"
    by (simp add: provideMultilineCompletionItems_def miss_def warm_def initial_def
        getCacheKey_def Let_def)
  show ?thesis
    using a n z m unfolding hit_def miss_def warm_def by (intro conjI)
qed

text \<open>
  Claim C3, amended. In a window that starts with the counter at zero, the k-th call of
  the rate-limit check passes exactly when k is at most the ceiling of 60: a burst of
  at most 60 checks passes as a whole, the 61st is refused, and under every
  interleaving of checks and window resets the counter stays at or below 60. The
  inline provider charges one check to every request that passes its API-key and
  language gates, whether its prompt is cached or not and whether it then fires or
  not: of those requests exactly the ones after the 60th get the rate-limited
  response. The multiline provider never consults the limiter: none of its requests
  is refused and the counter is left as it was.
\<close>

theorem rate_limit_window:
  "callCount st = 0 \<Longrightarrow>
     fst (checks n st) = map (\<lambda>k. k < MAX_CALLS_PER_MINUTE) [0..<n]
   \<and> (n \<le> MAX_CALLS_PER_MINUTE \<longrightarrow> (\<forall>b \<in> set (fst (checks n st)). b))
   \<and> fst (checks (MAX_CALLS_PER_MINUTE + 1) st) = replicate MAX_CALLS_PER_MINUTE True @ [False]
   \<and> callCount (limiter_run es st) \<le> MAX_CALLS_PER_MINUTE
   \<and> ((\<forall>rq \<in> set rqs. apiKeyConfigured rq \<and> languageEnabled rq) \<longrightarrow>
        map (\<lambda>r. r = RateLimited) (fst (provideAll rqs st))
          = map (\<lambda>k. MAX_CALLS_PER_MINUTE \<le> k) [0..<length rqs])
   \<and> fst (provideMultilineCompletionItems rq baseIndentation st') \<noteq> RateLimited
   \<and> callCount (snd (provideMultilineCompletionItems rq baseIndentation st')) = callCount st'"
proof -
  assume z: "callCount st = 0"
  note f = multiline_unlimited [of rq baseIndentation st']
  have e: "(\<forall>rq \<in> set rqs. apiKeyConfigured rq \<and> languageEnabled rq) \<longrightarrow>
        map (\<lambda>r. r = RateLimited) (fst (provideAll rqs st))
          = map (\<lambda>k. MAX_CALLS_PER_MINUTE \<le> k) [0..<length rqs]"
    using provideAll_from [of rqs st] z by simp
  have a: "fst (checks m st) = map (\<lambda>k. k < MAX_CALLS_PER_MINUTE) [0..<m]" for m
    using checks_from [of m st] z by simp
  have b: "n \<le> MAX_CALLS_PER_MINUTE \<longrightarrow> (\<forall>b \<in> set (fst (checks n st)). b)"
    by (auto simp: a)
  have "map (\<lambda>k. k < MAX_CALLS_PER_MINUTE) [0..<MAX_CALLS_PER_MINUTE] = replicate MAX_CALLS_PER_MINUTE True"
    by (simp add: list_eq_iff_nth_eq)
  moreover have "map (\<lambda>k. k < MAX_CALLS_PER_MINUTE) [0..<MAX_CALLS_PER_MINUTE + 1]
      = map (\<lambda>k. k < MAX_CALLS_PER_MINUTE) [0..<MAX_CALLS_PER_MINUTE] @ [False]"
    by simp
  ultimately have c: "fst (checks (MAX_CALLS_PER_MINUTE + 1) st) = replicate MAX_CALLS_PER_MINUTE True @ [False]"
    using a [of "MAX_CALLS_PER_MINUTE + 1"] by (simp only:)
  have d: "callCount (limiter_run es st) \<le> MAX_CALLS_PER_MINUTE"
    using limiter_run_bound [of st es] z by simp
  show ?thesis using a b c d e f by blast
qed

theorem rate_limit_window_witness:
  "callCount initial = 0
   \<and> fst (checks 3 initial) = [True, True, True]
   \<and> fst (checks (MAX_CALLS_PER_MINUTE + 1) initial) = replicate MAX_CALLS_PER_MINUTE True @ [False]
   \<and> callCount (limiter_run [Check, Reset, Check, Check] initial) \<le> MAX_CALLS_PER_MINUTE
   \<and> callCount (snd (provideMultilineCompletionItems
         \<lparr>apiKeyConfigured = True, languageEnabled = True, triggers = True,
          cancellationRequested = False, requester = 2, prompt = ''q''\<rparr> []
         (initial\<lparr>callCount := 60\<rparr>))) = 60"
proof -
  have z: "callCount initial = 0" by (simp add: initial_def)
  have u: "[0..<3] = [0, 1, 2::nat]" by (simp add: upt_rec)
  show ?thesis
    using z rate_limit_window [OF z, of 3 "[Check, Reset, Check, Check]" "[]"
        "\<lparr>apiKeyConfigured = True, languageEnabled = True, triggers = True,
          cancellationRequested = False, requester = 2, prompt = ''q''\<rparr>" "[]"
        "initial\<lparr>callCount := 60\<rparr>"]
    by (simp add: u MAX_CALLS_PER_MINUTE_def)
qed


section \<open>Re-indentation\<close>

text \<open>
  Claim C10. For every suggestion and every base indentation (the leading white space
  of one document line, so a string without a line feed), re-indentation keeps the
  number of lines, and returns the first line and every line that holds nothing but
  white space unchanged.
\<close>

theorem reindent_frame:
  "nl \<notin> set baseIndentation \<Longrightarrow>
     length (split nl (applyIndentation suggestion baseIndentation)) = length (split nl suggestion)
   \<and> split nl (applyIndentation suggestion baseIndentation) ! 0 = split nl suggestion ! 0
   \<and> (\<forall>i < length (split nl suggestion).
         (\<forall>c \<in> set (split nl suggestion ! i). is_space c) \<longrightarrow>
         split nl (applyIndentation suggestion baseIndentation) ! i = split nl suggestion ! i)"
proof -
  assume b: "nl \<notin> set baseIndentation"
  obtain l ls where sp: "split nl suggestion = l # ls"
    using split_not_Nil [of nl suggestion] by (cases "split nl suggestion") auto
  have out: "split nl (applyIndentation suggestion baseIndentation) = l # map (indentLine baseIndentation) ls"
    using applyIndentation_lines [OF b, of suggestion] sp by simp
  have blank: "indentLine baseIndentation x = x" if "\<forall>c \<in> set x. is_space c" for x
    using that trim_Nil_iff [of x] by (simp add: indentLine_def)
  have "(l # map (indentLine baseIndentation) ls) ! i = (l # ls) ! i"
    if "i < length (l # ls)" "\<forall>c \<in> set ((l # ls) ! i). is_space c" for i
    using that blank by (cases i) auto
  then show ?thesis using out sp by simp
qed

theorem reindent_frame_witness:
  "nl \<notin> set ''  ''
   \<and> length (split nl (applyIndentation (''if (x) {'' @ [nl] @ ''   '' @ [nl] @ ''y();'') ''  '')) = 3
   \<and> split nl (applyIndentation (''if (x) {'' @ [nl] @ ''   '' @ [nl] @ ''y();'') ''  '') ! 0 = ''if (x) {''
   \<and> split nl (applyIndentation (''if (x) {'' @ [nl] @ ''   '' @ [nl] @ ''y();'') ''  '') ! 1 = ''   ''"
proof -
  have b: "nl \<notin> set ''  ''" by simp
  have s: "split nl (''if (x) {'' @ [nl] @ ''   '' @ [nl] @ ''y();'') = [''if (x) {'', ''   '', ''y();'']"
    by simp
  have sp: "\<forall>c \<in> set ''   ''. is_space c" by (simp add: is_space_def)
  show ?thesis
    using reindent_frame [OF b, of "''if (x) {'' @ [nl] @ ''   '' @ [nl] @ ''y();''"] sp
    by (simp add: s)
qed

text \<open>
  Claim C6, the counterexample. With the base indentation of two spaces, the second
  line of the suggestion starts with four spaces: its leading white space is not the
  base indentation, and yet it is not replaced by it; the line comes back untouched.
\<close>

theorem reindent_deeper_line_counterexample:
  "leadingWhitespace ''    bar();'' \<noteq> ''  ''
   \<and> split nl (applyIndentation (''foo() {'' @ [nl] @ ''    bar();'' @ [nl] @ ''}'') ''  '') ! 1
       \<noteq> ''  '' @ drop (length (leadingWhitespace ''    bar();'')) ''    bar();''
   \<and> split nl (applyIndentation (''foo() {'' @ [nl] @ ''    bar();'' @ [nl] @ ''}'') ''  '') ! 1
       = ''    bar();''"
  by (simp add: applyIndentation_def indentLine_def leadingWhitespace_def trim_def
      is_space_def startsWith_def enumerate_eq_zip upt_rec)

text \<open>
  Claim C6, amended. For a suggestion of several lines and a base indentation without
  a line feed, the first line is unchanged, and every later line that holds a
  character other than white space is treated so: without leading white space it gets
  the base indentation prepended; when it starts with the base indentation (its
  leading white space is the base indentation or extends it) it is left untouched,
  in particular when its leading white space is the base indentation; when it has
  leading white space and does not start with the base indentation, that white space
  is replaced by the base indentation. For the suggestion with the lines
  \<^verbatim>\<open>foo() {\<close>, \<^verbatim>\<open>bar();\<close>, \<^verbatim>\<open>}\<close> and the base indentation of two spaces, the second line
  of the output is \<^verbatim>\<open>  bar();\<close>.
\<close>

theorem reindent_cases:
  "nl \<notin> set baseIndentation \<Longrightarrow> 1 < length (split nl suggestion) \<Longrightarrow>
     split nl (applyIndentation suggestion baseIndentation) ! 0 = split nl suggestion ! 0
   \<and> (\<forall>i. 0 < i \<and> i < length (split nl suggestion)
          \<and> (\<exists>c \<in> set (split nl suggestion ! i). \<not> is_space c) \<longrightarrow>
        (let ln = split nl suggestion ! i;
             out = split nl (applyIndentation suggestion baseIndentation) ! i in
           (leadingWhitespace ln = [] \<longrightarrow> out = baseIndentation @ ln)
         \<and> (leadingWhitespace ln \<noteq> [] \<and> startsWith ln baseIndentation \<longrightarrow> out = ln)
         \<and> (leadingWhitespace ln = baseIndentation \<longrightarrow> out = ln)
         \<and> (leadingWhitespace ln \<noteq> [] \<and> \<not> startsWith ln baseIndentation \<longrightarrow>
              out = baseIndentation @ drop (length (leadingWhitespace ln)) ln)))
   \<and> split nl (applyIndentation (''foo() {'' @ [nl] @ ''bar();'' @ [nl] @ ''}'') ''  '') ! 1
       = ''  bar();''"
proof -
  assume b: "nl \<notin> set baseIndentation" and multi: "1 < length (split nl suggestion)"
  obtain l ls where sp: "split nl suggestion = l # ls"
    using split_not_Nil [of nl suggestion] by (cases "split nl suggestion") auto
  have out: "split nl (applyIndentation suggestion baseIndentation) = l # map (indentLine baseIndentation) ls"
    using applyIndentation_lines [OF b, of suggestion] sp by simp
  have first: "split nl (applyIndentation suggestion baseIndentation) ! 0 = split nl suggestion ! 0"
    using out sp by simp
  have later: "split nl (applyIndentation suggestion baseIndentation) ! i
      = indentLine baseIndentation (split nl suggestion ! i)"
    if "0 < i" "i < length (split nl suggestion)" for i
    using that out sp by (cases i) auto
  have pre: "startsWith ln baseIndentation" if "leadingWhitespace ln = baseIndentation" for ln
  proof -
    have "take (length (takeWhile is_space ln)) ln = takeWhile is_space ln"
      by (metis append_eq_conv_conj takeWhile_dropWhile_id)
    then show ?thesis using that by (simp add: startsWith_def leadingWhitespace_def)
  qed
  have cases: "(leadingWhitespace ln = [] \<longrightarrow> indentLine baseIndentation ln = baseIndentation @ ln)
      \<and> (leadingWhitespace ln \<noteq> [] \<and> startsWith ln baseIndentation \<longrightarrow> indentLine baseIndentation ln = ln)
      \<and> (leadingWhitespace ln = baseIndentation \<longrightarrow> indentLine baseIndentation ln = ln)
      \<and> (leadingWhitespace ln \<noteq> [] \<and> \<not> startsWith ln baseIndentation \<longrightarrow>
           indentLine baseIndentation ln = baseIndentation @ drop (length (leadingWhitespace ln)) ln)"
    if "\<exists>c \<in> set ln. \<not> is_space c" for ln
  proof -
    have t: "trim ln \<noteq> []" using that trim_Nil_iff [of ln] by blast
    show ?thesis using t pre [of ln] by (auto simp: indentLine_def Let_def)
  qed
  have example: "split nl (applyIndentation (''foo() {'' @ [nl] @ ''bar();'' @ [nl] @ ''}'') ''  '') ! 1
       = ''  bar();''"
    by (simp add: applyIndentation_def indentLine_def leadingWhitespace_def trim_def
        is_space_def startsWith_def enumerate_eq_zip upt_rec)
  show ?thesis using first later cases example by (simp add: Let_def)
qed

theorem reindent_cases_witness:
  "nl \<notin> set ''  ''
   \<and> 1 < length (split nl (''a {'' @ [nl] @ '' d;''))
   \<and> split nl (applyIndentation (''a {'' @ [nl] @ '' d;'') ''  '') ! 0 = ''a {''
   \<and> split nl (applyIndentation (''a {'' @ [nl] @ '' d;'') ''  '') ! 1 = ''  d;''"
proof -
  have b: "nl \<notin> set ''  ''" by simp
  have s: "split nl (''a {'' @ [nl] @ '' d;'') = [''a {'', '' d;'']"
    by simp
  have m: "1 < length (split nl (''a {'' @ [nl] @ '' d;''))"
    by (simp add: s)
  have ns: "\<not> is_space (CHR ''d'')" by (simp add: is_space_def)
  have lw: "leadingWhitespace '' d;'' = '' ''"
    by (simp add: leadingWhitespace_def is_space_def)
  have sw: "\<not> startsWith '' d;'' ''  ''" by (simp add: startsWith_def)
  have "split nl (applyIndentation (''a {'' @ [nl] @ '' d;'') ''  '') ! 0 = ''a {''
    \<and> (let ln = '' d;''; out = split nl (applyIndentation (''a {'' @ [nl] @ '' d;'') ''  '') ! 1 in
         leadingWhitespace ln \<noteq> [] \<and> \<not> startsWith ln ''  '' \<longrightarrow>
           out = ''  '' @ drop (length (leadingWhitespace ln)) ln)"
    using reindent_cases [OF b m] ns by (simp add: s Let_def)
  then show ?thesis using b m lw sw by (simp add: Let_def)
qed


section \<open>Response sanitizer\<close>
























section \<open>Cache and debounce\<close>

text \<open>An orphan that does not call again stays one, whatever happens next.\<close>

lemma orphan_step:
  "orphan c st \<Longrightarrow> (\<forall>p. e \<noteq> Call c p) \<Longrightarrow> orphan c (step e st)"
proof (cases e)
  case (Call c' p')
  assume "orphan c st" "\<forall>p. e \<noteq> Call c p"
  then show ?thesis using Call
    by (auto simp: orphan_def getCachedSuggestion_def Let_def split: option.splits)
next
  case TimerFires
  assume "orphan c st"
  then show ?thesis using TimerFires
    by (auto simp: orphan_def timerFires_def split: option.splits)
next
  case (Responds c' p' r)
  assume "orphan c st"
  then show ?thesis using Responds
    by (auto simp: orphan_def modelResponds_def Let_def dest: notin_set_remove1)
qed

lemma orphan_run:
  "orphan c st \<Longrightarrow> (\<forall>p. Call c p \<notin> set es) \<Longrightarrow> orphan c (run es st)"
proof (induction es arbitrary: st)
  case Nil
  then show ?case by simp
next
  case (Cons e es)
  have "orphan c (step e st)"
    using Cons.prems by (intro orphan_step) auto
  then show ?case using Cons by simp
qed

text \<open>
  Claim C1, on the code. The prompt \<^verbatim>\<open>complete: x = \<close> is requested twice in immediate
  succession, by callers 1 and 2, with an empty cache; then the timeout fires and the
  model answers. One prompt went upstream and caller 2 got the answer, but caller 1
  got nothing, and it is an orphan: its timeout was cleared by the second call, so no
  later event resolves its promise.
\<close>

theorem debounce_drops_first_caller:
  "upstream (run [Call 1 ''complete: x = '', Call 2 ''complete: x = '', TimerFires,
        Responds 2 ''complete: x = '' ''42''] initial) = [''complete: x = '']
   \<and> delivered (run [Call 1 ''complete: x = '', Call 2 ''complete: x = '', TimerFires,
        Responds 2 ''complete: x = '' ''42''] initial) 2 = Some ''42''
   \<and> delivered (run [Call 1 ''complete: x = '', Call 2 ''complete: x = '', TimerFires,
        Responds 2 ''complete: x = '' ''42''] initial) 1 = None
   \<and> orphan 1 (run [Call 1 ''complete: x = '', Call 2 ''complete: x = ''] initial)"
  by (simp add: initial_def getCachedSuggestion_def getCacheKey_def timerFires_def
      modelResponds_def orphan_def trim_def is_space_def Let_def)

text \<open>
  Two requests one after the other, the second after the first was answered: one
  prompt goes upstream and both callers get the same string.
\<close>

lemma sequential_requests_share:
  "suggestionCache st p = None \<Longrightarrow> timer st = None \<Longrightarrow> inflight st = [] \<Longrightarrow>
   upstream (run [Call a p, TimerFires, Responds a p r, Call b p] st) = upstream st @ [p]
   \<and> delivered (run [Call a p, TimerFires, Responds a p r, Call b p] st) a = Some (trim r)
   \<and> delivered (run [Call a p, TimerFires, Responds a p r, Call b p] st) b = Some (trim r)"
  by (simp add: getCachedSuggestion_def getCacheKey_def timerFires_def modelResponds_def Let_def)

text \<open>
  Claim C4, the counterexample. The prompt is in the cache. With the counter at zero the
  request moves the counter to one; with the counter at the ceiling the request is
  refused and the cached completion is not returned.
\<close>

theorem cache_hit_consults_limiter_counterexample:
  "callCount (snd (provideInlineCompletionItems
       \<lparr>apiKeyConfigured = True, languageEnabled = True, triggers = True,
        cancellationRequested = False, requester = 1, prompt = ''p''\<rparr>
       (initial\<lparr>suggestionCache := [''p'' \<mapsto> ''v'']\<rparr>)))
     \<noteq> callCount (initial\<lparr>suggestionCache := [''p'' \<mapsto> ''v'']\<rparr>)
   \<and> fst (provideInlineCompletionItems
       \<lparr>apiKeyConfigured = True, languageEnabled = True, triggers = True,
        cancellationRequested = False, requester = 1, prompt = ''p''\<rparr>
       (initial\<lparr>suggestionCache := [''p'' \<mapsto> ''v''], callCount := 60\<rparr>)) = RateLimited"
  by (simp add: provideInlineCompletionItems_def rateLimitCheck_def MAX_CALLS_PER_MINUTE_def
      initial_def getCachedSuggestion_def getCacheKey_def)

text \<open>
  Claim C4, amended. For a request that passes the provider's gates and whose prompt is
  in the cache, the provider consults the rate limiter before the cache: below the
  ceiling the counter goes up by one and the cached completion is returned, sanitized;
  at the ceiling the request is refused and the state is unchanged. In both cases
  nothing is sent upstream, no timeout is armed, no call is put in flight and the cache
  is unchanged; and \<^verbatim>\<open>getCachedSuggestion\<close> itself, on a hit, hands the cached string
  to its caller and leaves the counter alone.
\<close>

theorem cache_hit_frame:
  "suggestionCache st (getCacheKey (prompt rq)) = Some v \<Longrightarrow>
   apiKeyConfigured rq \<Longrightarrow> languageEnabled rq \<Longrightarrow> triggers rq \<Longrightarrow>
   \<not> cancellationRequested rq \<Longrightarrow>
     (callCount st < MAX_CALLS_PER_MINUTE \<longrightarrow>
        fst (provideInlineCompletionItems rq st) = Completions [sanitizeCompletion v]
        \<and> callCount (snd (provideInlineCompletionItems rq st)) = callCount st + 1
        \<and> delivered (snd (provideInlineCompletionItems rq st)) (requester rq) = Some v)
   \<and> (MAX_CALLS_PER_MINUTE \<le> callCount st \<longrightarrow>
        provideInlineCompletionItems rq st = (RateLimited, st))
   \<and> upstream (snd (provideInlineCompletionItems rq st)) = upstream st
   \<and> timer (snd (provideInlineCompletionItems rq st)) = timer st
   \<and> inflight (snd (provideInlineCompletionItems rq st)) = inflight st
   \<and> suggestionCache (snd (provideInlineCompletionItems rq st)) = suggestionCache st
   \<and> getCachedSuggestion (requester rq) (prompt rq) st
       = st\<lparr>delivered := (delivered st)(requester rq \<mapsto> v)\<rparr>"
  by (auto simp: provideInlineCompletionItems_def rateLimitCheck_def getCachedSuggestion_def
      Let_def split: prod.splits bool.splits)

theorem cache_hit_frame_witness:
  "suggestionCache (initial\<lparr>suggestionCache := [''p'' \<mapsto> ''v'']\<rparr>) (getCacheKey ''p'') = Some ''v''
   \<and> provideInlineCompletionItems
       \<lparr>apiKeyConfigured = True, languageEnabled = True, triggers = True,
        cancellationRequested = False, requester = 1, prompt = ''p''\<rparr>
       (initial\<lparr>suggestionCache := [''p'' \<mapsto> ''v''], callCount := 60\<rparr>)
     = (RateLimited, initial\<lparr>suggestionCache := [''p'' \<mapsto> ''v''], callCount := 60\<rparr>)
   \<and> upstream (snd (provideInlineCompletionItems
       \<lparr>apiKeyConfigured = True, languageEnabled = True, triggers = True,
        cancellationRequested = False, requester = 1, prompt = ''p''\<rparr>
       (initial\<lparr>suggestionCache := [''p'' \<mapsto> ''v'']\<rparr>))) = []"
proof -
  have h: "suggestionCache (initial\<lparr>suggestionCache := [''p'' \<mapsto> ''v'']\<rparr>) (getCacheKey ''p'') = Some ''v''"
    by (simp add: getCacheKey_def)
  have h60: "suggestionCache (initial\<lparr>suggestionCache := [''p'' \<mapsto> ''v''], callCount := 60\<rparr>)
      (getCacheKey (prompt \<lparr>apiKeyConfigured = True, languageEnabled = True, triggers = True,
        cancellationRequested = False, requester = 1, prompt = ''p''\<rparr>)) = Some ''v''"
    by (simp add: getCacheKey_def)
  have h0: "suggestionCache (initial\<lparr>suggestionCache := [''p'' \<mapsto> ''v'']\<rparr>)
      (getCacheKey (prompt \<lparr>apiKeyConfigured = True, languageEnabled = True, triggers = True,
        cancellationRequested = False, requester = 1, prompt = ''p''\<rparr>)) = Some ''v''"
    by (simp add: getCacheKey_def)
  have a: "provideInlineCompletionItems
       \<lparr>apiKeyConfigured = True, languageEnabled = True, triggers = True,
        cancellationRequested = False, requester = 1, prompt = ''p''\<rparr>
       (initial\<lparr>suggestionCache := [''p'' \<mapsto> ''v''], callCount := 60\<rparr>)
     = (RateLimited, initial\<lparr>suggestionCache := [''p'' \<mapsto> ''v''], callCount := 60\<rparr>)"
    using cache_hit_frame [OF h60] by (simp add: MAX_CALLS_PER_MINUTE_def)
  have b: "upstream (snd (provideInlineCompletionItems
       \<lparr>apiKeyConfigured = True, languageEnabled = True, triggers = True,
        cancellationRequested = False, requester = 1, prompt = ''p''\<rparr>
       (initial\<lparr>suggestionCache := [''p'' \<mapsto> ''v'']\<rparr>))) = []"
    using cache_hit_frame [OF h0] by (simp add: initial_def)
  show ?thesis using h a b by simp
qed


section \<open>Language heuristics\<close>

lemma validate_origin:
  "doc \<noteq> [] \<Longrightarrow> validatePosition doc \<lparr>line = 0, character = 0\<rparr> = \<lparr>line = 0, character = 0\<rparr>"
  by (simp add: validatePosition_def)

lemma validate_in_range:
  "line pos < length doc \<Longrightarrow>
   validatePosition doc pos
     = \<lparr>line = line pos, character = min (character pos) (length (doc ! line pos))\<rparr>"
  by (simp add: validatePosition_def)

text \<open>The lines of the text before a position inside a well-formed document.\<close>

lemma textBefore_lines:
  assumes wf: "wf_document doc" and r: "line pos < length doc"
  shows "split nl (getTextRange doc \<lparr>line = 0, character = 0\<rparr> pos)
         = take (line pos) doc @ [take (character pos) (doc ! line pos)]"
proof -
  have ne: "doc \<noteq> []" and clean: "\<And>l. l \<in> set doc \<Longrightarrow> nl \<notin> set l"
    using wf by (auto simp: wf_document_def)
  have cut: "take (min (character pos) (length (doc ! line pos))) (doc ! line pos)
      = take (character pos) (doc ! line pos)"
    by (simp add: min_def)
  have last_clean: "nl \<notin> set (take (character pos) (doc ! line pos))"
    using clean [of "doc ! line pos"] r by (auto dest: in_set_takeD)
  show ?thesis
  proof (cases "line pos = 0")
    case True
    have "getTextRange doc \<lparr>line = 0, character = 0\<rparr> pos = take (character pos) (doc ! 0)"
      using True r cut by (simp add: getTextRange_def validate_origin [OF ne] validate_in_range Let_def)
    then show ?thesis using True last_clean by (simp add: split_without_sep)
  next
    case False
    have pre: "[doc ! 0] @ take (line pos - 1) (drop 1 doc) = take (line pos) doc"
    proof -
      obtain x xs where d: "doc = x # xs" using ne by (cases doc) auto
      obtain k where k: "line pos = Suc k" using False by (cases "line pos") auto
      show ?thesis using d k by simp
    qed
    have whole: "getTextRange doc \<lparr>line = 0, character = 0\<rparr> pos
        = join [nl] (take (line pos) doc @ [take (character pos) (doc ! line pos)])"
    proof -
      have "getTextRange doc \<lparr>line = 0, character = 0\<rparr> pos
        = join [nl] ([doc ! 0] @ take (line pos - 1) (drop 1 doc)
            @ [take (character pos) (doc ! line pos)])"
        using False r cut
        by (simp add: getTextRange_def validate_origin [OF ne] validate_in_range Let_def)
      then show ?thesis using pre by (metis append.assoc)
    qed
    have "split nl (join [nl] (take (line pos) doc @ [take (character pos) (doc ! line pos)]))
        = take (line pos) doc @ [take (character pos) (doc ! line pos)]"
    proof (rule split_join)
      show "take (line pos) doc @ [take (character pos) (doc ! line pos)] \<noteq> []" by simp
    next
      fix x assume "x \<in> set (take (line pos) doc @ [take (character pos) (doc ! line pos)])"
      then show "nl \<notin> set x" using clean last_clean by (auto dest: in_set_takeD)
    qed
    with whole show ?thesis by simp
  qed
qed

lemma getCurrentScope_in_range:
  assumes "wf_document doc" and "line pos < length doc"
  shows "\<exists>s. getCurrentScope languageId doc pos = Inr s"
proof -
  have "length (split nl (getTextRange doc \<lparr>line = 0, character = 0\<rparr> pos)) = line pos + 1"
    using textBefore_lines [OF assms] assms(2) by simp
  then show ?thesis by (simp add: getCurrentScope_def Let_def)
qed

text \<open>The backward loop reads at most 31 lines, however long the document is.\<close>

lemma scopeExamined_le:
  "i \<le> pl \<Longrightarrow> pl - i \<le> 30 \<Longrightarrow>
   scopeExamined languageId lines pl currentIndent i + (pl - i) \<le> 31"
proof (induction i)
  case 0
  then show ?case by simp
next
  case (Suc j)
  show ?case
  proof (cases "scopeAt languageId lines pl currentIndent (Suc j)")
    case (Some r)
    then show ?thesis using Suc.prems by simp
  next
    case None
    then have "pl - Suc j < 30"
      by (auto simp: scopeAt_def Let_def split: if_splits)
    then have "scopeExamined languageId lines pl currentIndent j + (pl - j) \<le> 31"
      using Suc by simp
    then show ?thesis using None Suc.prems by simp
  qed
qed

lemma scopeExamined_bound: "scopeExamined languageId lines pl currentIndent pl \<le> 31"
  using scopeExamined_le [of pl pl languageId lines currentIndent] by simp

text \<open>
  With no block opener of smaller indentation among the lines read, the loop leaves
  through the fallback when the cursor line is 30 or more, and with no lines at all
  when the cursor line is less than 30.
\<close>

lemma scopeLoop_fallback:
  "30 \<le> pl \<Longrightarrow> pl - 30 \<le> i \<Longrightarrow> i \<le> pl \<Longrightarrow>
   (\<forall>k. pl - 30 \<le> k \<and> k \<le> i \<longrightarrow> \<not> opener languageId lines currentIndent k) \<Longrightarrow>
   scopeLoop languageId lines pl currentIndent i = slice lines (pl - 30) pl"
proof (induction i)
  case 0
  then show ?case by (auto simp: scopeAt_def opener_def Let_def)
next
  case (Suc j)
  have no: "\<not> opener languageId lines currentIndent (Suc j)" using Suc.prems by simp
  show ?case
  proof (cases "pl - Suc j \<ge> 30")
    case True
    then show ?thesis using no by (auto simp: scopeAt_def opener_def Let_def)
  next
    case False
    then have "scopeAt languageId lines pl currentIndent (Suc j) = None"
      using no by (auto simp: scopeAt_def opener_def Let_def)
    moreover have "scopeLoop languageId lines pl currentIndent j = slice lines (pl - 30) pl"
      using Suc False by (intro Suc.IH) auto
    ultimately show ?thesis by simp
  qed
qed

lemma scopeLoop_short:
  "pl < 30 \<Longrightarrow> i \<le> pl \<Longrightarrow>
   (\<forall>k \<le> i. \<not> opener languageId lines currentIndent k) \<Longrightarrow>
   scopeLoop languageId lines pl currentIndent i = []"
proof (induction i)
  case 0
  then show ?case by (auto simp: scopeAt_def opener_def Let_def)
next
  case (Suc j)
  have "scopeAt languageId lines pl currentIndent (Suc j) = None"
    using Suc.prems by (auto simp: scopeAt_def opener_def Let_def)
  moreover have "scopeLoop languageId lines pl currentIndent j = []"
    using Suc by simp
  ultimately show ?case by simp
qed

text \<open>
  Claim C8, on the code. A Python document of two lines, neither a block opener, with
  the cursor at the end of its second line: the loop runs out at line 0 and the scope
  is the empty string, not the lines before the cursor.
\<close>

theorem scope_short_document_empty:
  "getCurrentScope ''python'' [''x = 1'', ''y = 2''] \<lparr>line = 1, character = 5\<rparr> = Inr []
   \<and> getTextRange [''x = 1'', ''y = 2''] \<lparr>line = 0, character = 0\<rparr> \<lparr>line = 1, character = 5\<rparr>
       = ''x = 1'' @ [nl] @ ''y = 2''"
  by (simp add: getCurrentScope_def getTextRange_def validatePosition_def scopeAt_def
      leadingWhitespace_def is_space_def Let_def)


text \<open>
  Claim C9, the counterexample. A position whose line lies outside the document:
  \<^verbatim>\<open>getCurrentScope\<close> reads \<^verbatim>\<open>lines[position.line]\<close>, which is undefined, and raises;
  comment and string detection raise with \<^verbatim>\<open>lineAt\<close>.
\<close>

theorem heuristics_raise_counterexample:
  "getCurrentScope ''python'' [''x = 1''] \<lparr>line = 3, character = 0\<rparr> = Inl TypeError
   \<and> isPositionInComment ''python'' [''x = 1''] \<lparr>line = 3, character = 0\<rparr> = Inl IllegalLine
   \<and> isPositionInString ''python'' [''x = 1''] \<lparr>line = 3, character = 0\<rparr> = Inl IllegalLine"
  by (simp add: getCurrentScope_def getTextRange_def validatePosition_def
      isPositionInComment_def isPositionInString_def lineAt_def Let_def)

lemma trim_Nil: "trim [] = []"
  by (simp add: trim_def)

lemma startsWith_Nil: "startsWith [] (c # cs) = False"
  by (simp add: startsWith_def)

lemma pythonConstant_Nil: "\<not> matches [] pythonConstant"
  by (simp add: matches_def pythonConstant_def)

lemma goImports_blank: "goImports False [[]] = []"
  by (simp add: trim_Nil startsWith_Nil endsWith_def)

lemma imports_of_empty_text: "getImportStatements languageId [] = []"
  unfolding getImportStatements_def Let_def
  by (simp add: trim_Nil startsWith_Nil pythonConstant_Nil goImports_blank)

lemma declarations_of_empty_text: "getGlobalDeclarations languageId [] = []"
  unfolding getGlobalDeclarations_def Let_def
  by (simp add: imports_of_empty_text trim_Nil startsWith_Nil pythonConstant_Nil)

lemma imports_of_other_language:
  "languageId \<notin> set [''javascript'', ''typescript'', ''python'', ''java'', ''kotlin'', ''go'', ''rust'']
   \<Longrightarrow> getImportStatements languageId documentText = []"
  by (simp add: getImportStatements_def Let_def)

lemma declarations_of_other_language:
  "languageId \<notin> set [''javascript'', ''typescript'', ''python'', ''java'', ''kotlin'', ''go'', ''rust'']
   \<Longrightarrow> getGlobalDeclarations languageId documentText = []"
  using imports_of_other_language [of languageId documentText]
  by (simp add: getGlobalDeclarations_def Let_def)

text \<open>
  Claim C9, amended. For every language identifier and every position whose line lies
  in the document, comment detection, string detection and scope extraction return
  without raising (import and declaration extraction have no raising operation at
  all). For a language identifier outside the supported ones, comment and string
  detection answer false and import and declaration extraction return the empty
  string; for the empty text every language gets empty imports and declarations, and
  in the empty document detection answers false and the scope is empty.
\<close>

theorem heuristics_degrade:
  "wf_document doc \<Longrightarrow> line pos < length doc \<Longrightarrow>
     (\<exists>b. isPositionInComment languageId doc pos = Inr b)
   \<and> (\<exists>b. isPositionInString languageId doc pos = Inr b)
   \<and> (\<exists>s. getCurrentScope languageId doc pos = Inr s)
   \<and> (languageId \<notin> set (slashLanguages @ hashLanguages @ markupLanguages) \<longrightarrow>
        isPositionInComment languageId doc pos = Inr False)
   \<and> (languageId \<notin> set quoteLanguages \<longrightarrow> isPositionInString languageId doc pos = Inr False)
   \<and> (languageId \<notin> set [''javascript'', ''typescript'', ''python'', ''java'', ''kotlin'',
          ''go'', ''rust''] \<longrightarrow>
        getImportStatements languageId documentText = []
        \<and> getGlobalDeclarations languageId documentText = [])
   \<and> getImportStatements languageId [] = []
   \<and> getGlobalDeclarations languageId [] = []
   \<and> isPositionInComment languageId [[]] \<lparr>line = 0, character = 0\<rparr> = Inr False
   \<and> isPositionInString languageId [[]] \<lparr>line = 0, character = 0\<rparr> = Inr False
   \<and> getCurrentScope languageId [[]] \<lparr>line = 0, character = 0\<rparr> = Inr []"
proof -
  assume wf: "wf_document doc" and r: "line pos < length doc"
  have c: "\<exists>b. isPositionInComment languageId doc pos = Inr b"
    using r by (auto simp: isPositionInComment_def lineAt_def Let_def)
  have s: "\<exists>b. isPositionInString languageId doc pos = Inr b"
    using r by (auto simp: isPositionInString_def lineAt_def Let_def)
  have sc: "\<exists>s. getCurrentScope languageId doc pos = Inr s"
    using getCurrentScope_in_range [OF wf r] .
  have cu: "languageId \<notin> set (slashLanguages @ hashLanguages @ markupLanguages) \<longrightarrow>
        isPositionInComment languageId doc pos = Inr False"
    using r by (simp add: isPositionInComment_def lineAt_def)
  have su: "languageId \<notin> set quoteLanguages \<longrightarrow> isPositionInString languageId doc pos = Inr False"
    using r by (simp add: isPositionInString_def lineAt_def Let_def)
  have ce: "isPositionInComment languageId [[]] \<lparr>line = 0, character = 0\<rparr> = Inr False"
    by (simp add: isPositionInComment_def lineAt_def Let_def)
  have se: "isPositionInString languageId [[]] \<lparr>line = 0, character = 0\<rparr> = Inr False"
    by (simp add: isPositionInString_def lineAt_def Let_def)
  have sce: "getCurrentScope languageId [[]] \<lparr>line = 0, character = 0\<rparr> = Inr []"
    by (simp add: getCurrentScope_def getTextRange_def validatePosition_def scopeAt_def
        leadingWhitespace_def Let_def)
  show ?thesis
    using c s sc cu su ce se sce imports_of_empty_text declarations_of_empty_text
      imports_of_other_language declarations_of_other_language
    by blast
qed

theorem heuristics_degrade_witness:
  "wf_document [''# c''] \<and> line \<lparr>line = 0, character = 2\<rparr> < length [''# c'']
   \<and> isPositionInComment ''cobol'' [''# c''] \<lparr>line = 0, character = 2\<rparr> = Inr False
   \<and> isPositionInString ''cobol'' [''# c''] \<lparr>line = 0, character = 2\<rparr> = Inr False
   \<and> getImportStatements ''cobol'' ''import x'' = []
   \<and> getGlobalDeclarations ''cobol'' ''import x'' = []
   \<and> getCurrentScope ''cobol'' [[]] \<lparr>line = 0, character = 0\<rparr> = Inr []"
proof -
  have wf: "wf_document [''# c'']" by (simp add: wf_document_def)
  have r: "line \<lparr>line = 0, character = 2\<rparr> < length [''# c'']" by simp
  have u1: "''cobol'' \<notin> set (slashLanguages @ hashLanguages @ markupLanguages)"
    by (simp add: slashLanguages_def hashLanguages_def markupLanguages_def)
  have u2: "''cobol'' \<notin> set quoteLanguages" by (simp add: quoteLanguages_def)
  have u3: "''cobol'' \<notin> set [''javascript'', ''typescript'', ''python'', ''java'', ''kotlin'',
          ''go'', ''rust'']" by simp
  show ?thesis
    using heuristics_degrade [OF wf r, of "''cobol''" "''import x''"] wf r u1 u2 u3
    by blast
qed


section \<open>Trigger policy and context assembly\<close>

lemma getContextData_fields:
  assumes "getContextData cfg languageId doc docPath files pos = Inr cd"
  shows "\<exists>scope ln.
           getCurrentScope languageId doc pos = Inr scope
         \<and> lineAt doc (line pos) = Inr ln
         \<and> isPositionInComment languageId doc pos = Inr (isInComment cd)
         \<and> isPositionInString languageId doc pos = Inr (isInString cd)
         \<and> currentLine cd = ln
         \<and> indentation cd = leadingWhitespace ln
         \<and> contextText cd = assemble
              [if includeImportsInContext cfg then getImportStatements languageId (getText doc) else [],
               getProjectContext cfg docPath files, scope,
               getTextRange doc \<lparr>line = line pos - contextLineCount cfg, character = 0\<rparr> pos]"
  using assms
  by (auto simp: getContextData_def getProjectContext_def Let_def split: sum.splits)

lemma getContextData_in_range:
  assumes "wf_document doc" and "line pos < length doc"
  shows "\<exists>cd. getContextData cfg languageId doc docPath files pos = Inr cd"
proof -
  obtain s where s: "getCurrentScope languageId doc pos = Inr s"
    using getCurrentScope_in_range [OF assms] by blast
  have "\<exists>b. isPositionInComment languageId doc pos = Inr b"
    using assms(2) by (auto simp: isPositionInComment_def lineAt_def Let_def)
  then obtain b where b: "isPositionInComment languageId doc pos = Inr b" by blast
  have "\<exists>b. isPositionInString languageId doc pos = Inr b"
    using assms(2) by (auto simp: isPositionInString_def lineAt_def Let_def)
  then obtain b' where b': "isPositionInString languageId doc pos = Inr b'" by blast
  have l: "lineAt doc (line pos) = Inr (doc ! line pos)"
    using assms(2) by (simp add: lineAt_def)
  show ?thesis by (simp add: getContextData_def Let_def s b b' l)
qed

lemma getContextData_intro:
  "getCurrentScope languageId doc pos = Inr scope \<Longrightarrow>
   lineAt doc (line pos) = Inr ln \<Longrightarrow>
   isPositionInComment languageId doc pos = Inr inComment \<Longrightarrow>
   isPositionInString languageId doc pos = Inr inString \<Longrightarrow>
   getContextData cfg languageId doc docPath files pos
     = Inr \<lparr>contextText = assemble
              [if includeImportsInContext cfg then getImportStatements languageId (getText doc) else [],
               getProjectContext cfg docPath files, scope,
               getTextRange doc \<lparr>line = line pos - contextLineCount cfg, character = 0\<rparr> pos],
            currentLine = ln, cursorPosition = pos, indentation = leadingWhitespace ln,
            isInComment = inComment, isInString = inString\<rparr>"
  by (simp add: getContextData_def getProjectContext_def Let_def)

lemma comment_example:
  "getContextData cfg ''javascript'' [''// x''] ''a.js'' [] \<lparr>line = 0, character = 4\<rparr>
     = Inr \<lparr>contextText = ''// x'', currentLine = ''// x'',
            cursorPosition = \<lparr>line = 0, character = 4\<rparr>, indentation = [],
            isInComment = True, isInString = False\<rparr>"
proof -
  have i: "getImportStatements ''javascript'' (getText [''// x'']) = []"
    by (simp add: getImportStatements_def getText_def trim_def is_space_def startsWith_def Let_def)
  have p: "getProjectContext cfg ''a.js'' [] = []"
    by (simp add: getProjectContext_def)
  have s: "getCurrentScope ''javascript'' [''// x''] \<lparr>line = 0, character = 4\<rparr> = Inr []"
    by (simp add: getCurrentScope_def getTextRange_def validatePosition_def scopeAt_def
        leadingWhitespace_def is_space_def Let_def)
  have w: "getTextRange [''// x''] \<lparr>line = 0, character = 0\<rparr> \<lparr>line = 0, character = 4\<rparr> = ''// x''"
    by (simp add: getTextRange_def validatePosition_def Let_def)
  have l: "lineAt [''// x''] (line \<lparr>line = 0, character = 4\<rparr>) = Inr ''// x''"
    by (simp add: lineAt_def)
  have c: "isPositionInComment ''javascript'' [''// x''] \<lparr>line = 0, character = 4\<rparr> = Inr True"
    by (simp add: isPositionInComment_def lineAt_def slashLanguages_def startsWith_def Let_def)
  have q: "isPositionInString ''javascript'' [''// x''] \<lparr>line = 0, character = 4\<rparr> = Inr False"
    by (simp add: isPositionInString_def lineAt_def quoteLanguages_def Let_def)
  have lw: "leadingWhitespace ''// x'' = []" by (simp add: leadingWhitespace_def is_space_def)
  show ?thesis
    using getContextData_intro [OF s l c q, of cfg "''a.js''" "[]"] i p w lw
    by (simp add: assemble_def)
qed

lemma import_example:
  "getContextData defaultConfig ''javascript'' [''import a'', ''x''] ''a.js'' []
       \<lparr>line = 1, character = 1\<rparr>
     = Inr \<lparr>contextText = ''import a'' @ [nl] @ ''import a'' @ [nl] @ ''x'', currentLine = ''x'',
            cursorPosition = \<lparr>line = 1, character = 1\<rparr>, indentation = [],
            isInComment = False, isInString = False\<rparr>"
proof -
  have i: "getImportStatements ''javascript'' (getText [''import a'', ''x'']) = ''import a''"
    by (simp add: getImportStatements_def getText_def trim_def is_space_def startsWith_def Let_def)
  have p: "getProjectContext defaultConfig ''a.js'' [] = []"
    by (simp add: getProjectContext_def)
  have s: "getCurrentScope ''javascript'' [''import a'', ''x''] \<lparr>line = 1, character = 1\<rparr> = Inr []"
    by (simp add: getCurrentScope_def getTextRange_def validatePosition_def scopeAt_def
        leadingWhitespace_def is_space_def Let_def)
  have w: "getTextRange [''import a'', ''x''] \<lparr>line = 0, character = 0\<rparr>
        \<lparr>line = 1, character = 1\<rparr> = ''import a'' @ [nl] @ ''x''"
    by (simp add: getTextRange_def validatePosition_def Let_def)
  have l: "lineAt [''import a'', ''x''] (line \<lparr>line = 1, character = 1\<rparr>) = Inr ''x''"
    by (simp add: lineAt_def)
  have c: "isPositionInComment ''javascript'' [''import a'', ''x''] \<lparr>line = 1, character = 1\<rparr> = Inr False"
    by (simp add: isPositionInComment_def lineAt_def slashLanguages_def startsWith_def Let_def)
  have q: "isPositionInString ''javascript'' [''import a'', ''x''] \<lparr>line = 1, character = 1\<rparr> = Inr False"
    by (simp add: isPositionInString_def lineAt_def quoteLanguages_def Let_def)
  have lw: "leadingWhitespace ''x'' = []" by (simp add: leadingWhitespace_def is_space_def)
  have inc: "includeImportsInContext defaultConfig" "contextLineCount defaultConfig = 50"
    by (simp_all add: defaultConfig_def)
  show ?thesis
    using getContextData_intro [OF s l c q, of defaultConfig "''a.js''" "[]"] i p w lw inc
    by (simp add: assemble_def)
qed

text \<open>
  Claim C2, the counterexample. JavaScript, the line \<^verbatim>\<open>// x\<close>, the cursor at its end,
  the default settings, explicit invocation: the position is in a comment and the
  decision of the inline provider is not to fire; on the same context data the
  multiline policy does not fire either.
\<close>

theorem explicit_in_comment_counterexample:
  "inlineDecision defaultConfig ''javascript'' [''// x''] ''a.js'' []
       \<lparr>line = 0, character = 4\<rparr> Invoke = Inr False
   \<and> isPositionInComment ''javascript'' [''// x''] \<lparr>line = 0, character = 4\<rparr> = Inr True
   \<and> \<not> multilineDecision defaultConfig ''javascript''
         \<lparr>contextText = ''// x'', currentLine = ''// x'',
          cursorPosition = \<lparr>line = 0, character = 4\<rparr>, indentation = [],
          isInComment = True, isInString = False\<rparr> Invoke"
proof -
  have c: "isPositionInComment ''javascript'' [''// x''] \<lparr>line = 0, character = 4\<rparr> = Inr True"
    by (simp add: isPositionInComment_def lineAt_def slashLanguages_def startsWith_def Let_def)
  have a: "inlineDecision defaultConfig ''javascript'' [''// x''] ''a.js'' []
       \<lparr>line = 0, character = 4\<rparr> Invoke = Inr False"
    unfolding inlineDecision_def comment_example
    by (simp add: shouldTriggerCompletion_def defaultConfig_def)
  have m: "\<not> multilineDecision defaultConfig ''javascript''
         \<lparr>contextText = ''// x'', currentLine = ''// x'',
          cursorPosition = \<lparr>line = 0, character = 4\<rparr>, indentation = [],
          isInComment = True, isInString = False\<rparr> Invoke"
    by (simp add: multilineDecision_def shouldTriggerMultilineCompletion_def)
  show ?thesis using a c m by (intro conjI)
qed

text \<open>
  Claim C2, amended. For every language, document and position for which the context
  data is obtained, an explicit invocation makes the inline policy fire unless the
  position is in a comment while \<^verbatim>\<open>skipInComments\<close> is set (the default) or in a string
  while \<^verbatim>\<open>skipInStrings\<close> is set; with both settings off it always fires. The multiline
  policy, on explicit invocation, fires exactly when the position is neither in a
  comment nor in a string and the line is an appropriate multiline location.
\<close>

theorem explicit_trigger_policy:
  "getContextData cfg languageId doc docPath files pos = Inr cd \<Longrightarrow>
     isPositionInComment languageId doc pos = Inr (isInComment cd)
   \<and> isPositionInString languageId doc pos = Inr (isInString cd)
   \<and> inlineDecision cfg languageId doc docPath files pos Invoke
       = Inr (\<not> (skipInComments cfg \<and> isInComment cd) \<and> \<not> (skipInStrings cfg \<and> isInString cd))
   \<and> (\<not> skipInComments cfg \<and> \<not> skipInStrings cfg \<longrightarrow>
        inlineDecision cfg languageId doc docPath files pos Invoke = Inr True)
   \<and> (multilineDecision cfg languageId cd Invoke \<longleftrightarrow>
        \<not> isInComment cd \<and> \<not> isInString cd
        \<and> isAppropriateMultilineLocation languageId (currentLine cd))"
proof -
  assume cd: "getContextData cfg languageId doc docPath files pos = Inr cd"
  have f: "isPositionInComment languageId doc pos = Inr (isInComment cd)
      \<and> isPositionInString languageId doc pos = Inr (isInString cd)"
    using getContextData_fields [OF cd] by blast
  have d: "inlineDecision cfg languageId doc docPath files pos Invoke
       = Inr (\<not> (skipInComments cfg \<and> isInComment cd) \<and> \<not> (skipInStrings cfg \<and> isInString cd))"
    by (simp add: inlineDecision_def cd shouldTriggerCompletion_def Let_def)
  have m: "multilineDecision cfg languageId cd Invoke \<longleftrightarrow>
        \<not> isInComment cd \<and> \<not> isInString cd
        \<and> isAppropriateMultilineLocation languageId (currentLine cd)"
    by (simp add: multilineDecision_def shouldTriggerMultilineCompletion_def)
  show ?thesis using f d m by simp
qed

theorem explicit_trigger_policy_witness:
  "getContextData (defaultConfig\<lparr>skipInComments := False\<rparr>) ''javascript'' [''// x'']
       ''a.js'' [] \<lparr>line = 0, character = 4\<rparr>
     = Inr \<lparr>contextText = ''// x'', currentLine = ''// x'',
            cursorPosition = \<lparr>line = 0, character = 4\<rparr>, indentation = [],
            isInComment = True, isInString = False\<rparr>
   \<and> inlineDecision (defaultConfig\<lparr>skipInComments := False\<rparr>) ''javascript'' [''// x'']
        ''a.js'' [] \<lparr>line = 0, character = 4\<rparr> Invoke = Inr True"
proof -
  note cd = comment_example [of "defaultConfig\<lparr>skipInComments := False\<rparr>"]
  have off: "\<not> skipInComments (defaultConfig\<lparr>skipInComments := False\<rparr>)
      \<and> \<not> skipInStrings (defaultConfig\<lparr>skipInComments := False\<rparr>)"
    by (simp add: defaultConfig_def)
  note imp = explicit_trigger_policy [OF cd, THEN conjunct2, THEN conjunct2, THEN conjunct2,
      THEN conjunct1]
  have d: "inlineDecision (defaultConfig\<lparr>skipInComments := False\<rparr>) ''javascript'' [''// x'']
        ''a.js'' [] \<lparr>line = 0, character = 4\<rparr> Invoke = Inr True"
    using imp off by (rule mp)
  show ?thesis using cd d by (rule conjI)
qed

text \<open>
  Claim C7, the counterexample. A JavaScript document with an import line and the
  cursor in its second line: the sections are the import line, no project context,
  no scope, and the two lines before the cursor; the bundle has one line feed between
  the import section and the pre-cursor window, not a blank line.
\<close>

theorem context_separator_counterexample:
  "getContextData defaultConfig ''javascript'' [''import a'', ''x''] ''a.js'' []
       \<lparr>line = 1, character = 1\<rparr>
     = Inr \<lparr>contextText = ''import a'' @ [nl] @ ''import a'' @ [nl] @ ''x'', currentLine = ''x'',
            cursorPosition = \<lparr>line = 1, character = 1\<rparr>, indentation = [],
            isInComment = False, isInString = False\<rparr>
   \<and> ''import a'' @ [nl] @ ''import a'' @ [nl] @ ''x''
       \<noteq> specContextBundle [''import a'', [], [], ''import a'' @ [nl] @ ''x'']
   \<and> getImportStatements ''javascript'' (getText [''import a'', ''x'']) = ''import a''
   \<and> getProjectContext defaultConfig ''a.js'' [] = []
   \<and> getCurrentScope ''javascript'' [''import a'', ''x''] \<lparr>line = 1, character = 1\<rparr> = Inr []
   \<and> getTextRange [''import a'', ''x''] \<lparr>line = 0, character = 0\<rparr>
        \<lparr>line = 1, character = 1\<rparr> = ''import a'' @ [nl] @ ''x''"
proof -
  have i: "getImportStatements ''javascript'' (getText [''import a'', ''x'']) = ''import a''"
    by (simp add: getImportStatements_def getText_def trim_def is_space_def startsWith_def Let_def)
  have p: "getProjectContext defaultConfig ''a.js'' [] = []"
    by (simp add: getProjectContext_def)
  have s: "getCurrentScope ''javascript'' [''import a'', ''x''] \<lparr>line = 1, character = 1\<rparr> = Inr []"
    by (simp add: getCurrentScope_def getTextRange_def validatePosition_def scopeAt_def
        leadingWhitespace_def is_space_def Let_def)
  have w: "getTextRange [''import a'', ''x''] \<lparr>line = 0, character = 0\<rparr>
        \<lparr>line = 1, character = 1\<rparr> = ''import a'' @ [nl] @ ''x''"
    by (simp add: getTextRange_def validatePosition_def Let_def)
  have n: "''import a'' @ [nl] @ ''import a'' @ [nl] @ ''x''
       \<noteq> specContextBundle [''import a'', [], [], ''import a'' @ [nl] @ ''x'']"
    by (simp add: specContextBundle_def)
  show ?thesis using import_example n i p s w by (intro conjI)
qed

text \<open>
  Claim C7, amended. For every document snapshot for which the context data is
  obtained, the bundle consists of the four sections in the order imports, cross-file
  project context, enclosing scope, pre-cursor window, with the empty sections
  omitted and the remaining ones joined with one line feed between neighbours; when
  all four are non-empty it is their concatenation with three line feeds.
\<close>

theorem context_bundle_order:
  "getContextData cfg languageId doc docPath files pos = Inr cd \<Longrightarrow>
   imports = (if includeImportsInContext cfg then getImportStatements languageId (getText doc) else []) \<Longrightarrow>
   project = getProjectContext cfg docPath files \<Longrightarrow>
   window = getTextRange doc \<lparr>line = line pos - contextLineCount cfg, character = 0\<rparr> pos \<Longrightarrow>
   \<exists>scope. getCurrentScope languageId doc pos = Inr scope
     \<and> contextText cd = join [nl] (filter (\<lambda>s. s \<noteq> []) [imports, project, scope, window])
     \<and> (imports \<noteq> [] \<and> project \<noteq> [] \<and> scope \<noteq> [] \<and> window \<noteq> [] \<longrightarrow>
          contextText cd = imports @ [nl] @ project @ [nl] @ scope @ [nl] @ window)
     \<and> (imports = [] \<and> project = [] \<and> scope = [] \<longrightarrow> contextText cd = window)"
proof -
  assume cd: "getContextData cfg languageId doc docPath files pos = Inr cd"
    and i: "imports = (if includeImportsInContext cfg then getImportStatements languageId (getText doc) else [])"
    and p: "project = getProjectContext cfg docPath files"
    and w: "window = getTextRange doc \<lparr>line = line pos - contextLineCount cfg, character = 0\<rparr> pos"
  obtain scope where sc: "getCurrentScope languageId doc pos = Inr scope"
    and t: "contextText cd = assemble [imports, project, scope, window]"
    using getContextData_fields [OF cd] i p w by auto
  have a: "contextText cd = join [nl] (filter (\<lambda>s. s \<noteq> []) [imports, project, scope, window])"
    using t by (simp add: assemble_def)
  have b: "imports \<noteq> [] \<and> project \<noteq> [] \<and> scope \<noteq> [] \<and> window \<noteq> [] \<longrightarrow>
          contextText cd = imports @ [nl] @ project @ [nl] @ scope @ [nl] @ window"
    using a by simp
  have c: "imports = [] \<and> project = [] \<and> scope = [] \<longrightarrow> contextText cd = window"
    using a by (cases "window = []") simp_all
  show ?thesis using sc a b c by blast
qed

theorem context_bundle_order_witness:
  "getContextData defaultConfig ''javascript'' [''import a'', ''x''] ''a.js'' []
       \<lparr>line = 1, character = 1\<rparr>
     = Inr \<lparr>contextText = ''import a'' @ [nl] @ ''import a'' @ [nl] @ ''x'', currentLine = ''x'',
            cursorPosition = \<lparr>line = 1, character = 1\<rparr>, indentation = [],
            isInComment = False, isInString = False\<rparr>
   \<and> ''import a'' @ [nl] @ ''import a'' @ [nl] @ ''x''
       = join [nl] (filter (\<lambda>s. s \<noteq> [])
            [getImportStatements ''javascript'' (getText [''import a'', ''x'']),
             getProjectContext defaultConfig ''a.js'' [], [],
             getTextRange [''import a'', ''x''] \<lparr>line = 0, character = 0\<rparr> \<lparr>line = 1, character = 1\<rparr>])"
proof -
  have s: "getCurrentScope ''javascript'' [''import a'', ''x''] \<lparr>line = 1, character = 1\<rparr> = Inr []"
    by (simp add: getCurrentScope_def getTextRange_def validatePosition_def scopeAt_def
        leadingWhitespace_def is_space_def Let_def)
  have inc: "includeImportsInContext defaultConfig" and clc: "contextLineCount defaultConfig = 50"
    by (simp_all add: defaultConfig_def)
  from context_bundle_order [OF import_example refl refl refl]
  obtain scope where sc: "getCurrentScope ''javascript'' [''import a'', ''x'']
        \<lparr>line = 1, character = 1\<rparr> = Inr scope"
    and t: "contextText \<lparr>contextText = ''import a'' @ [nl] @ ''import a'' @ [nl] @ ''x'',
            currentLine = ''x'', cursorPosition = \<lparr>line = 1, character = 1\<rparr>, indentation = [],
            isInComment = False, isInString = False\<rparr>
       = join [nl] (filter (\<lambda>s. s \<noteq> [])
            [if includeImportsInContext defaultConfig
             then getImportStatements ''javascript'' (getText [''import a'', ''x'']) else [],
             getProjectContext defaultConfig ''a.js'' [], scope,
             getTextRange [''import a'', ''x'']
               \<lparr>line = line \<lparr>line = 1, character = 1\<rparr> - contextLineCount defaultConfig, character = 0\<rparr>
               \<lparr>line = 1, character = 1\<rparr>])"
    by blast
  have e: "scope = []" using sc s by simp
  have "''import a'' @ [nl] @ ''import a'' @ [nl] @ ''x''
       = join [nl] (filter (\<lambda>s. s \<noteq> [])
            [getImportStatements ''javascript'' (getText [''import a'', ''x'']),
             getProjectContext defaultConfig ''a.js'' [], [],
             getTextRange [''import a'', ''x''] \<lparr>line = 0, character = 0\<rparr> \<lparr>line = 1, character = 1\<rparr>])"
    using t e inc clc by simp
  then show ?thesis using import_example by (intro conjI)
qed


end
